theory Spec2Isabelle
  imports Main "HOL-Library.Code_Target_Nat"
begin

section \<open>Errors\<close>

text \<open>
  Every exception of the TypeScript sources is a value of \<open>error\<close>; a function that can
  throw returns \<open>error + 'a\<close> with \<open>Inl\<close> for the exception. The first four constructors
  are the exceptions the sources under verification raise themselves; the others are the
  error kinds of the helpers they call (position math, swap simulation, account fetcher).
\<close>

datatype error =
    InvariantFailed string  \<comment> \<open>\<open>invariant(cond, msg)\<close> of tiny-invariant\<close>
  | Error string            \<comment> \<open>\<open>throw new Error(msg)\<close>\<close>
  | TypeError               \<comment> \<open>property access on \<open>undefined\<close>\<close>
  | RangeError              \<comment> \<open>\<open>Array(n)\<close> with an invalid length\<close>
  | ArithmeticOverflow
  | DivideByZero
  | InsufficientTickArrays
  | ZeroLiquidity
  | TickOutOfBounds
  | PoolNotFound
  | TickArrayNotFound

section \<open>Add-liquidity quotes (sdk/src/quotes/public/increase-liquidity-quote.ts)\<close>

subsection \<open>Data\<close>

text \<open>
  \<open>BN\<close> values are unbounded integers (\<open>int\<close>); public keys are compared with
  \<open>equals\<close> only and are modelled by their base-58 strings.
\<close>

type_synonym mint = string

record Percentage =
  numerator :: int
  denominator :: int

text \<open>
  \<open>IncreaseLiquidityQuoteByLiquidityParam\<close> and \<open>IncreaseLiquidityQuoteParam\<close> share the
  fields that describe the pool price and the position range; the shared fields form the
  parent record, so that one selector reads them from either parameter object.
\<close>

record RangeParam =
  tickCurrentIndex :: int
  sqrtPrice :: int
  tickLowerIndex :: int
  tickUpperIndex :: int
  slippage :: Percentage

record IncreaseLiquidityQuoteByLiquidityParam = RangeParam +
  liquidity :: int

record IncreaseLiquidityQuoteParam = RangeParam +
  inputTokenAmount :: int
  inputTokenMint :: mint
  tokenMintA :: mint
  tokenMintB :: mint

record IncreaseLiquidityEstimate =
  liquidityAmount :: int
  tokenEstA :: int
  tokenEstB :: int

record IncreaseLiquidityQuote = IncreaseLiquidityEstimate +
  tokenMaxA :: int
  tokenMaxB :: int

datatype PositionStatus = BelowRange | InRange | AboveRange

subsection \<open>Imported helpers\<close>

text \<open>
  The quote functions import their fixed-point arithmetic from \<open>utils/position-util\<close> and
  \<open>utils/public\<close> (\<open>PriceMath\<close>, \<open>TickUtil\<close>, \<open>PositionUtil\<close>), which are not among the
  sources. They are parameters of the model, collected in one record; each may throw.
\<close>

record PositionMath =
  checkTickInBounds :: "int \<Rightarrow> bool"
  tickIndexToSqrtPriceX64 :: "int \<Rightarrow> error + int"
  getSlippageBoundForSqrtPrice :: "int \<Rightarrow> Percentage \<Rightarrow> error + ((int \<times> int) \<times> (int \<times> int))"
  getLiquidityFromTokenA :: "int \<Rightarrow> int \<Rightarrow> int \<Rightarrow> bool \<Rightarrow> error + int"
  getLiquidityFromTokenB :: "int \<Rightarrow> int \<Rightarrow> int \<Rightarrow> bool \<Rightarrow> error + int"
  getTokenAFromLiquidity :: "int \<Rightarrow> int \<Rightarrow> int \<Rightarrow> bool \<Rightarrow> error + int"
  getTokenBFromLiquidity :: "int \<Rightarrow> int \<Rightarrow> int \<Rightarrow> bool \<Rightarrow> error + int"
  adjustForSlippage :: "int \<Rightarrow> Percentage \<Rightarrow> bool \<Rightarrow> error + int"
  getStrictPositionStatus :: "int \<Rightarrow> int \<Rightarrow> int \<Rightarrow> error + PositionStatus"

text \<open>Sequencing of computations that may throw.\<close>

definition bind :: "error + 'a \<Rightarrow> ('a \<Rightarrow> error + 'b) \<Rightarrow> error + 'b" where
  "bind m f = (case m of Inl e \<Rightarrow> Inl e | Inr x \<Rightarrow> f x)"

definition ZERO :: int where
  "ZERO = 0"

definition zeroQuote :: IncreaseLiquidityQuote where
  "zeroQuote = \<lparr> liquidityAmount = ZERO, tokenEstA = ZERO, tokenEstB = ZERO,
                 tokenMaxA = ZERO, tokenMaxB = ZERO \<rparr>"

subsection \<open>Quote by liquidity\<close>

text \<open>
  \<open>getTokenEstimatesFromLiquidity\<close> returns the pair \<open>(tokenEstA, tokenEstB)\<close>. Both range
  prices are computed before the branch, in the order of the source.
\<close>

definition getTokenEstimatesFromLiquidity ::
  "PositionMath \<Rightarrow> IncreaseLiquidityQuoteByLiquidityParam \<Rightarrow> error + (int \<times> int)" where
  "getTokenEstimatesFromLiquidity pm params =
     (if liquidity params = ZERO then Inl (Error ''liquidity must be greater than 0'')
      else
        bind (tickIndexToSqrtPriceX64 pm (tickLowerIndex params)) (\<lambda>lowerSqrtPrice.
        bind (tickIndexToSqrtPriceX64 pm (tickUpperIndex params)) (\<lambda>upperSqrtPrice.
          if tickCurrentIndex params < tickLowerIndex params then
            bind (getTokenAFromLiquidity pm (liquidity params) (sqrtPrice params) upperSqrtPrice True)
              (\<lambda>a. Inr (a, ZERO))
          else if tickCurrentIndex params < tickUpperIndex params then
            bind (getTokenAFromLiquidity pm (liquidity params) (sqrtPrice params) upperSqrtPrice True)
              (\<lambda>a.
            bind (getTokenBFromLiquidity pm (liquidity params) lowerSqrtPrice (sqrtPrice params) True)
              (\<lambda>b. Inr (a, b)))
          else
            bind (getTokenBFromLiquidity pm (liquidity params) lowerSqrtPrice upperSqrtPrice True)
              (\<lambda>b. Inr (ZERO, b)))))"

text \<open>\<open>BN.max(left, right)\<close> returns \<open>left\<close> when \<open>left.cmp(right) > 0\<close> and \<open>right\<close> otherwise.\<close>

definition BN_max :: "int \<Rightarrow> int \<Rightarrow> int" where
  "BN_max left right = (if left > right then left else right)"

definition increaseLiquidityQuoteByLiquidityWithParams ::
  "PositionMath \<Rightarrow> IncreaseLiquidityQuoteByLiquidityParam \<Rightarrow> error + IncreaseLiquidityQuote" where
  "increaseLiquidityQuoteByLiquidityWithParams pm params =
     (if liquidity params = ZERO then Inr zeroQuote
      else
        bind (getTokenEstimatesFromLiquidity pm params) (\<lambda>(estA, estB).
        bind (getSlippageBoundForSqrtPrice pm (sqrtPrice params) (slippage params))
          (\<lambda>((sLowerSqrtPrice, sLowerIndex), (sUpperSqrtPrice, sUpperIndex)).
        bind (getTokenEstimatesFromLiquidity pm
                (params\<lparr> sqrtPrice := sLowerSqrtPrice, tickCurrentIndex := sLowerIndex \<rparr>))
          (\<lambda>(estALower, estBLower).
        bind (getTokenEstimatesFromLiquidity pm
                (params\<lparr> sqrtPrice := sUpperSqrtPrice, tickCurrentIndex := sUpperIndex \<rparr>))
          (\<lambda>(estAUpper, estBUpper).
          Inr \<lparr> liquidityAmount = liquidity params, tokenEstA = estA, tokenEstB = estB,
                tokenMaxA = BN_max (BN_max estA estALower) estAUpper,
                tokenMaxB = BN_max (BN_max estB estBLower) estBUpper \<rparr>)))))"

subsection \<open>Quote by input token, price slippage\<close>

definition getLiquidityFromInputToken ::
  "PositionMath \<Rightarrow> IncreaseLiquidityQuoteParam \<Rightarrow> error + int" where
  "getLiquidityFromInputToken pm params =
     (if inputTokenAmount params = ZERO then Inr ZERO
      else
        let isTokenA = (tokenMintA params = inputTokenMint params) in
        bind (tickIndexToSqrtPriceX64 pm (tickLowerIndex params)) (\<lambda>sqrtPriceLowerX64.
        bind (tickIndexToSqrtPriceX64 pm (tickUpperIndex params)) (\<lambda>sqrtPriceUpperX64.
          if tickCurrentIndex params < tickLowerIndex params then
            (if isTokenA
             then getLiquidityFromTokenA pm (inputTokenAmount params)
                    sqrtPriceLowerX64 sqrtPriceUpperX64 False
             else Inr ZERO)
          else if tickCurrentIndex params > tickUpperIndex params then
            (if isTokenA then Inr ZERO
             else getLiquidityFromTokenB pm (inputTokenAmount params)
                    sqrtPriceLowerX64 sqrtPriceUpperX64 False)
          else
            (if isTokenA
             then getLiquidityFromTokenA pm (inputTokenAmount params)
                    (sqrtPrice params) sqrtPriceUpperX64 False
             else getLiquidityFromTokenB pm (inputTokenAmount params)
                    sqrtPriceLowerX64 (sqrtPrice params) False))))"

text \<open>The three \<open>invariant\<close> checks shared by both by-input-token entry points.\<close>

definition checkQuoteParam :: "PositionMath \<Rightarrow> IncreaseLiquidityQuoteParam \<Rightarrow> error + unit" where
  "checkQuoteParam pm param =
     (if \<not> checkTickInBounds pm (tickLowerIndex param)
        then Inl (InvariantFailed ''tickLowerIndex is out of bounds.'')
      else if \<not> checkTickInBounds pm (tickUpperIndex param)
        then Inl (InvariantFailed ''tickUpperIndex is out of bounds.'')
      else if \<not> (inputTokenMint param = tokenMintA param \<or> inputTokenMint param = tokenMintB param)
        then Inl (InvariantFailed ''input token mint does not match any tokens in the provided pool.'')
      else Inr ())"

definition increaseLiquidityQuoteByInputTokenWithParams_PriceSlippage ::
  "PositionMath \<Rightarrow> IncreaseLiquidityQuoteParam \<Rightarrow> error + IncreaseLiquidityQuote" where
  "increaseLiquidityQuoteByInputTokenWithParams_PriceSlippage pm param =
     bind (checkQuoteParam pm param) (\<lambda>_.
     bind (getLiquidityFromInputToken pm param) (\<lambda>liq.
       if liq = ZERO then Inr zeroQuote
       else increaseLiquidityQuoteByLiquidityWithParams pm
              \<lparr> tickCurrentIndex = tickCurrentIndex param, sqrtPrice = sqrtPrice param,
                tickLowerIndex = tickLowerIndex param, tickUpperIndex = tickUpperIndex param,
                slippage = slippage param, liquidity = liq \<rparr>))"

subsection \<open>Quote by input token, deprecated path\<close>

definition zeroEstimate :: IncreaseLiquidityEstimate where
  "zeroEstimate = \<lparr> liquidityAmount = ZERO, tokenEstA = ZERO, tokenEstB = ZERO \<rparr>"

definition getQuotePositionBelowRange ::
  "PositionMath \<Rightarrow> IncreaseLiquidityQuoteParam \<Rightarrow> error + IncreaseLiquidityEstimate" where
  "getQuotePositionBelowRange pm param =
     (if \<not> (tokenMintA param = inputTokenMint param) then Inr zeroEstimate
      else
        bind (tickIndexToSqrtPriceX64 pm (tickLowerIndex param)) (\<lambda>sqrtPriceLowerX64.
        bind (tickIndexToSqrtPriceX64 pm (tickUpperIndex param)) (\<lambda>sqrtPriceUpperX64.
        bind (getLiquidityFromTokenA pm (inputTokenAmount param)
                sqrtPriceLowerX64 sqrtPriceUpperX64 False) (\<lambda>liq.
        bind (getTokenAFromLiquidity pm liq sqrtPriceLowerX64 sqrtPriceUpperX64 True) (\<lambda>estA.
          Inr \<lparr> liquidityAmount = liq, tokenEstA = estA, tokenEstB = ZERO \<rparr>)))))"

definition getQuotePositionAboveRange ::
  "PositionMath \<Rightarrow> IncreaseLiquidityQuoteParam \<Rightarrow> error + IncreaseLiquidityEstimate" where
  "getQuotePositionAboveRange pm param =
     (if \<not> (tokenMintB param = inputTokenMint param) then Inr zeroEstimate
      else
        bind (tickIndexToSqrtPriceX64 pm (tickLowerIndex param)) (\<lambda>sqrtPriceLowerX64.
        bind (tickIndexToSqrtPriceX64 pm (tickUpperIndex param)) (\<lambda>sqrtPriceUpperX64.
        bind (getLiquidityFromTokenB pm (inputTokenAmount param)
                sqrtPriceLowerX64 sqrtPriceUpperX64 False) (\<lambda>liq.
        bind (getTokenBFromLiquidity pm liq sqrtPriceLowerX64 sqrtPriceUpperX64 True) (\<lambda>estB.
          Inr \<lparr> liquidityAmount = liq, tokenEstA = ZERO, tokenEstB = estB \<rparr>)))))"

text \<open>
  In \<open>getQuotePositionInRange\<close> the input amount is bound to \<open>tokenEstA\<close> or \<open>tokenEstB\<close> and
  the other is \<open>undefined\<close>; a \<open>BN\<close> object is truthy whatever its value, so the first
  branch is taken exactly when the input mint is token A and the third is unreachable.
  Both branches compute the two estimates by the same calls.
\<close>

definition getQuotePositionInRange ::
  "PositionMath \<Rightarrow> IncreaseLiquidityQuoteParam \<Rightarrow> error + IncreaseLiquidityEstimate" where
  "getQuotePositionInRange pm param =
     bind (tickIndexToSqrtPriceX64 pm (tickLowerIndex param)) (\<lambda>sqrtPriceLowerX64.
     bind (tickIndexToSqrtPriceX64 pm (tickUpperIndex param)) (\<lambda>sqrtPriceUpperX64.
     bind (if tokenMintA param = inputTokenMint param
           then getLiquidityFromTokenA pm (inputTokenAmount param)
                  (sqrtPrice param) sqrtPriceUpperX64 False
           else getLiquidityFromTokenB pm (inputTokenAmount param)
                  sqrtPriceLowerX64 (sqrtPrice param) False) (\<lambda>liq.
     bind (getTokenAFromLiquidity pm liq (sqrtPrice param) sqrtPriceUpperX64 True) (\<lambda>estA.
     bind (getTokenBFromLiquidity pm liq sqrtPriceLowerX64 (sqrtPrice param) True) (\<lambda>estB.
       Inr \<lparr> liquidityAmount = liq, tokenEstA = estA, tokenEstB = estB \<rparr>)))))"

text \<open>
  The wrappers add the token maxima. The object literal lists \<open>tokenMaxA\<close> and \<open>tokenMaxB\<close>
  before it spreads the estimate, which has neither field, so nothing is overwritten.
\<close>

definition quotePositionBelowRange ::
  "PositionMath \<Rightarrow> IncreaseLiquidityQuoteParam \<Rightarrow> error + IncreaseLiquidityQuote" where
  "quotePositionBelowRange pm param =
     bind (getQuotePositionBelowRange pm param) (\<lambda>quote.
     bind (adjustForSlippage pm (tokenEstA quote) (slippage param) True) (\<lambda>maxA.
       Inr \<lparr> liquidityAmount = liquidityAmount quote, tokenEstA = tokenEstA quote,
             tokenEstB = tokenEstB quote, tokenMaxA = maxA, tokenMaxB = ZERO \<rparr>))"

definition quotePositionInRange ::
  "PositionMath \<Rightarrow> IncreaseLiquidityQuoteParam \<Rightarrow> error + IncreaseLiquidityQuote" where
  "quotePositionInRange pm param =
     bind (getQuotePositionInRange pm param) (\<lambda>quote.
     bind (adjustForSlippage pm (tokenEstA quote) (slippage param) True) (\<lambda>maxA.
     bind (adjustForSlippage pm (tokenEstB quote) (slippage param) True) (\<lambda>maxB.
       Inr \<lparr> liquidityAmount = liquidityAmount quote, tokenEstA = tokenEstA quote,
             tokenEstB = tokenEstB quote, tokenMaxA = maxA, tokenMaxB = maxB \<rparr>)))"

definition quotePositionAboveRange ::
  "PositionMath \<Rightarrow> IncreaseLiquidityQuoteParam \<Rightarrow> error + IncreaseLiquidityQuote" where
  "quotePositionAboveRange pm param =
     bind (getQuotePositionAboveRange pm param) (\<lambda>quote.
     bind (adjustForSlippage pm (tokenEstB quote) (slippage param) True) (\<lambda>maxB.
       Inr \<lparr> liquidityAmount = liquidityAmount quote, tokenEstA = tokenEstA quote,
             tokenEstB = tokenEstB quote, tokenMaxA = ZERO, tokenMaxB = maxB \<rparr>))"

definition increaseLiquidityQuoteByInputTokenWithParams ::
  "PositionMath \<Rightarrow> IncreaseLiquidityQuoteParam \<Rightarrow> error + IncreaseLiquidityQuote" where
  "increaseLiquidityQuoteByInputTokenWithParams pm param =
     bind (checkQuoteParam pm param) (\<lambda>_.
     bind (getStrictPositionStatus pm (sqrtPrice param) (tickLowerIndex param) (tickUpperIndex param))
       (\<lambda>positionStatus.
         case positionStatus of
           BelowRange \<Rightarrow> quotePositionBelowRange pm param
         | InRange \<Rightarrow> quotePositionInRange pm param
         | AboveRange \<Rightarrow> quotePositionAboveRange pm param))"


section \<open>Split router (routing module with \<open>findBestRoutes\<close>)\<close>

subsection \<open>JavaScript arrays and objects\<close>

text \<open>
  An array that may have holes is a list of options, \<open>None\<close> for a hole or \<open>undefined\<close>.
  Reading outside the array gives \<open>undefined\<close>; writing at or beyond the length extends
  the array and leaves holes in between.
\<close>

definition js_index :: "'a option list \<Rightarrow> int \<Rightarrow> 'a option" where
  "js_index xs i = (if 0 \<le> i \<and> i < int (length xs) then xs ! nat i else None)"

definition js_set :: "'a option list \<Rightarrow> nat \<Rightarrow> 'a \<Rightarrow> 'a option list" where
  "js_set xs i v =
     (if i < length xs then xs[i := Some v]
      else xs @ replicate (i - length xs) None @ [Some v])"

text \<open>Reading a dense array: \<open>undefined\<close> outside its bounds.\<close>

definition nth_opt :: "'a list \<Rightarrow> nat \<Rightarrow> 'a option" where
  "nth_opt xs i = (if i < length xs then Some (xs ! i) else None)"

text \<open>
  An object whose keys are non-negative integers (the quote maps, keyed by percent) is an
  association list in ascending key order without repeated keys: the order in which
  \<open>Object.keys\<close> enumerates integer keys, whatever the order of insertion.
\<close>

fun obj_set :: "(nat \<times> 'v) list \<Rightarrow> nat \<Rightarrow> 'v \<Rightarrow> (nat \<times> 'v) list" where
  "obj_set [] k v = [(k, v)]"
| "obj_set ((k', v') # rest) k v =
     (if k = k' then (k, v) # rest
      else if k < k' then (k, v) # (k', v') # rest
      else (k', v') # obj_set rest k v)"

text \<open>\<open>Array.from(new Set(xs))\<close>: the distinct elements in the order of first occurrence.\<close>

definition uniq :: "'a list \<Rightarrow> 'a list" where
  "uniq xs = rev (remdups (rev xs))"

text \<open>
  \<open>Array.prototype.sort\<close> with a comparator is stable: \<open>a\<close> stays before \<open>b\<close> unless the
  comparator is positive. (For a comparator that is not a consistent ordering the
  language leaves the result to the implementation; here it is insertion from the right.)
\<close>

fun js_insort :: "('a \<Rightarrow> 'a \<Rightarrow> int) \<Rightarrow> 'a \<Rightarrow> 'a list \<Rightarrow> 'a list" where
  "js_insort cmp x [] = [x]"
| "js_insort cmp x (y # ys) = (if cmp x y \<le> 0 then x # y # ys else y # js_insort cmp x ys)"

definition js_sort :: "('a \<Rightarrow> 'a \<Rightarrow> int) \<Rightarrow> 'a list \<Rightarrow> 'a list" where
  "js_sort cmp xs = foldr (js_insort cmp) xs []"

text \<open>\<open>a.cmp(b)\<close> of \<open>BN\<close>.\<close>

definition BN_cmp :: "nat \<Rightarrow> nat \<Rightarrow> int" where
  "BN_cmp a b = (if a < b then - 1 else if a = b then 0 else 1)"

text \<open>Loops whose body may throw: the first exception ends the loop.\<close>

fun foldE :: "('a \<Rightarrow> 's \<Rightarrow> error + 's) \<Rightarrow> 'a list \<Rightarrow> 's \<Rightarrow> error + 's" where
  "foldE f [] s = Inr s"
| "foldE f (x # xs) s = bind (f x s) (foldE f xs)"

fun mapE :: "('a \<Rightarrow> error + 'b) \<Rightarrow> 'a list \<Rightarrow> error + 'b list" where
  "mapE f [] = Inr []"
| "mapE f (x # xs) = bind (f x) (\<lambda>y. bind (mapE f xs) (\<lambda>ys. Inr (y # ys)))"

subsection \<open>Data\<close>

text \<open>
  \<open>u64\<close> amounts are non-negative \<open>BN\<close> values; \<open>mul\<close> and \<open>div\<close> of \<open>BN\<close> do not wrap, so
  they are natural numbers. Addresses and mints are base-58 strings. Field names carry
  the prefix of their record, since the sources use the same names for local variables;
  the parameters \<open>inputTokenMint\<close> and \<open>outputTokenMint\<close> of the router are written
  \<open>inputToken\<close> and \<open>outputToken\<close>, the former being a field of the quote parameters.
\<close>

type_synonym address = string

record TokenPairPool =
  pool_address :: address
  pool_tokenMintA :: mint
  pool_tokenMintB :: mint

record WhirlpoolData =
  wp_tokenMintA :: mint
  wp_tokenMintB :: mint
  wp_tokenVaultA :: address
  wp_tokenVaultB :: address
  wp_tickCurrentIndex :: int
  wp_tickSpacing :: int

record SwapQuoteParam =
  sqp_whirlpoolData :: WhirlpoolData
  sqp_tokenAmount :: nat
  sqp_aToB :: bool
  sqp_amountSpecifiedIsInput :: bool

record SwapQuote =
  estimatedAmountIn :: nat
  estimatedAmountOut :: nat
  estimatedFeeAmount :: nat
  otherAmountThreshold :: nat

record QuoteRequest =
  req_whirlpool :: address
  req_tradeTokenMint :: mint
  req_tokenAmount :: nat
  req_amountSpecifiedIsInput :: bool

record QuoteUpdate =
  upd_percent :: nat
  upd_routeIndex :: nat
  upd_hopIndex :: nat
  upd_quoteIndex :: nat
  upd_address :: address
  upd_request :: QuoteRequest

record Hop =
  hop_percent :: nat
  hop_amountIn :: nat
  hop_amountOut :: nat
  hop_whirlpool :: address
  hop_inputMint :: mint
  hop_outputMint :: mint
  hop_mintA :: mint
  hop_mintB :: mint
  hop_vaultA :: address
  hop_vaultB :: address
  hop_quote :: SwapQuote

text \<open>
  \<open>Pick<RouteQuote, "route" | "percent" | "calculatedHops">\<close> is the parent record of
  \<open>RouteQuote\<close>.
\<close>

record PartialQuote =
  rq_percent :: nat
  rq_route :: "address list"
  rq_calculatedHops :: "Hop option list"

record RouteQuote = PartialQuote +
  rq_amountIn :: nat
  rq_amountOut :: nat

record SplitResult =
  split_quotes :: "RouteQuote list"
  split_percent :: nat
  split_totalIn :: nat
  split_totalOut :: nat

type_synonym QuoteMap = "(nat \<times> PartialQuote option list) list"
type_synonym CleanedQuoteMap = "(nat \<times> RouteQuote list) list"

record RoutingOptions =
  percentIncrement :: nat
  numTopRoutes :: nat
  numTopPartialQuotes :: nat
  maxSplits :: nat

text \<open>\<open>Partial<RoutingOptions>\<close>: \<open>None\<close> for a key that is absent.\<close>

record PartialRoutingOptions =
  opt_percentIncrement :: "nat option"
  opt_numTopRoutes :: "nat option"
  opt_numTopPartialQuotes :: "nat option"
  opt_maxSplits :: "nat option"

definition DEFAULT_ROUTING_OPTIONS :: RoutingOptions where
  "DEFAULT_ROUTING_OPTIONS =
     \<lparr> percentIncrement = 20, numTopRoutes = 50, numTopPartialQuotes = 10, maxSplits = 3 \<rparr>"

text \<open>\<open>{ ...DEFAULT_ROUTING_OPTIONS, ...userRoutingOptions }\<close>\<close>

definition mergeRoutingOptions :: "RoutingOptions \<Rightarrow> PartialRoutingOptions \<Rightarrow> RoutingOptions" where
  "mergeRoutingOptions d u =
     \<lparr> percentIncrement = (case opt_percentIncrement u of None \<Rightarrow> percentIncrement d | Some v \<Rightarrow> v),
       numTopRoutes = (case opt_numTopRoutes u of None \<Rightarrow> numTopRoutes d | Some v \<Rightarrow> v),
       numTopPartialQuotes =
         (case opt_numTopPartialQuotes u of None \<Rightarrow> numTopPartialQuotes d | Some v \<Rightarrow> v),
       maxSplits = (case opt_maxSplits u of None \<Rightarrow> maxSplits d | Some v \<Rightarrow> v) \<rparr>"

subsection \<open>Collaborators\<close>

text \<open>
  The router imports the route id, the account fetcher, the tick-array addresses, the
  batched and the single swap quote, the ranker of route sets and its comparator from
  modules that are not among the sources. They are parameters of the model. Fetching and
  quoting may throw; the ranker and the comparator are pure functions of their arguments.
\<close>

record RouterEnv =
  getRouteId :: "mint \<Rightarrow> mint \<Rightarrow> string"
  listPools :: "address list \<Rightarrow> bool \<Rightarrow> error + WhirlpoolData option list"
  listTickArrays :: "address list \<Rightarrow> bool \<Rightarrow> error + unit"
  getTickArrayPublicKeys :: "int \<Rightarrow> int \<Rightarrow> bool \<Rightarrow> address \<Rightarrow> address \<Rightarrow> address list"
  batchSwapQuoteByToken :: "QuoteRequest list \<Rightarrow> address \<Rightarrow> bool \<Rightarrow> error + SwapQuoteParam list"
  swapQuoteWithParams :: "SwapQuoteParam \<Rightarrow> Percentage \<Rightarrow> error + SwapQuote"
  getRankedRouteSets :: "CleanedQuoteMap \<Rightarrow> bool \<Rightarrow> nat \<Rightarrow> nat \<Rightarrow> SplitResult list"
  getRouteSetCompare :: "bool \<Rightarrow> SplitResult \<Rightarrow> SplitResult \<Rightarrow> int"

text \<open>
  Calls that leave the router are recorded, in order, next to the result: a computation
  returns the calls it made and either an exception or a value.
\<close>

datatype call =
    ListPools "address list"
  | ListTickArrays "address list"
  | BatchSwapQuoteByToken "QuoteRequest list"
  | SwapQuoteWithParams SwapQuoteParam Percentage

type_synonym 'a traced = "call list \<times> (error + 'a)"

definition bindT :: "'a traced \<Rightarrow> ('a \<Rightarrow> 'b traced) \<Rightarrow> 'b traced" where
  "bindT m f =
     (case m of
        (calls, Inl e) \<Rightarrow> (calls, Inl e)
      | (calls, Inr x) \<Rightarrow> (case f x of (calls', r) \<Rightarrow> (calls @ calls', r)))"

fun foldT :: "('a \<Rightarrow> 's \<Rightarrow> 's traced) \<Rightarrow> 'a list \<Rightarrow> 's \<Rightarrow> 's traced" where
  "foldT f [] s = ([], Inr s)"
| "foldT f (x # xs) s = bindT (f x s) (foldT f xs)"

definition Percentage_fromFraction :: "int \<Rightarrow> int \<Rightarrow> Percentage" where
  "Percentage_fromFraction n d = \<lparr> numerator = n, denominator = d \<rparr>"


subsection \<open>Percentage amounts\<close>

text \<open>
  The loop \<open>for (let i = 1; i <= 100 / minPercent; i++)\<close>. For a whole \<open>minPercent\<close> the
  floating-point test \<open>i <= 100 / minPercent\<close> holds exactly when \<open>i * minPercent <= 100\<close>,
  also for \<open>minPercent = 0\<close>, where the quotient is \<open>Infinity\<close> and the loop never ends:
  not returning is the value \<open>None\<close>.
\<close>

partial_function (option) percentageLoop ::
  "nat \<Rightarrow> nat \<Rightarrow> nat \<Rightarrow> nat list \<Rightarrow> nat list \<Rightarrow> (nat list \<times> nat list) option" where
  "percentageLoop inputAmount minPercent i percents amounts =
     (if i * minPercent \<le> 100
      then percentageLoop inputAmount minPercent (i + 1)
             (percents @ [i * minPercent])
             (amounts @ [inputAmount * (i * minPercent) div 100])
      else Some (percents, amounts))"

declare percentageLoop.simps [code]

definition generatePercentageAmounts :: "nat \<Rightarrow> nat \<Rightarrow> (nat list \<times> nat list) option" where
  "generatePercentageAmounts inputAmount minPercent = percentageLoop inputAmount minPercent 1 [] []"

subsection \<open>Pre-fetching\<close>

text \<open>
  The tick-array addresses of the pools that were found; \<open>ps[i]\<close> is read for every index
  of the fetched array, and an index without an address cannot be made a public key.
\<close>

fun tickArrayAddressesOf ::
  "RouterEnv \<Rightarrow> address \<Rightarrow> WhirlpoolData option list \<Rightarrow> address list \<Rightarrow> error + address list" where
  "tickArrayAddressesOf env programId [] ps = Inr []"
| "tickArrayAddressesOf env programId (None # wps) ps = tickArrayAddressesOf env programId wps (tl ps)"
| "tickArrayAddressesOf env programId (Some wp # wps) [] = Inl TypeError"
| "tickArrayAddressesOf env programId (Some wp # wps) (p # ps) =
     (let addr1 = getTickArrayPublicKeys env (wp_tickCurrentIndex wp) (wp_tickSpacing wp) True programId p;
          addr2 = getTickArrayPublicKeys env (wp_tickCurrentIndex wp) (wp_tickSpacing wp) False programId p
      in bind (tickArrayAddressesOf env programId wps ps) (\<lambda>rest. Inr (uniq (addr1 @ addr2) @ rest)))"

definition prefetchRoutes :: "RouterEnv \<Rightarrow> address list list \<Rightarrow> address \<Rightarrow> unit traced" where
  "prefetchRoutes env pairRoutes programId =
     (let ps = uniq (concat pairRoutes) in
      bindT ([ListPools ps], listPools env ps False) (\<lambda>allWps.
      bindT ([], tickArrayAddressesOf env programId allWps ps) (\<lambda>tickArrayAddresses.
        ([ListTickArrays tickArrayAddresses], listTickArrays env tickArrayAddresses False))))"

subsection \<open>Quote requests of one hop\<close>

text \<open>
  The body of the inner loop of \<open>buildQuoteUpdateRequests\<close> for one route. The tests
  \<open>hop > route.length - 1\<close> and \<open>hop === route.length - 1\<close> are written with \<open>hop + 1\<close>, since
  the subtraction of natural numbers stops at zero. The row \<open>quoteMap[percent]\<close> exists
  when the body runs (the outer loop creates it); reading a property of \<open>undefined\<close> is a
  \<open>TypeError\<close>.
\<close>

definition buildRouteRequest ::
  "mint \<Rightarrow> mint \<Rightarrow> (address \<rightharpoonup> TokenPairPool) \<Rightarrow> nat \<Rightarrow> nat \<Rightarrow> nat \<Rightarrow> bool \<Rightarrow>
   nat \<times> address list \<Rightarrow> QuoteMap \<times> QuoteUpdate list \<Rightarrow> error + (QuoteMap \<times> QuoteUpdate list)" where
  "buildRouteRequest inputToken outputToken pools percent tradeAmount hop
     amountSpecifiedIsInput indexedRoute state =
     (let routeIndex = fst indexedRoute; route = snd indexedRoute;
          quoteMap = fst state; quoteUpdates = snd state
      in
      if (if amountSpecifiedIsInput then length route \<le> hop else hop + 1 > length route)
      then Inr (quoteMap, quoteUpdates)
      else
        let startingRouteEval =
              (if amountSpecifiedIsInput then hop = 0 else hop + 1 = length route) in
        (case map_of quoteMap percent of
          None \<Rightarrow> Inl TypeError
        | Some row \<Rightarrow>
            (let row' = (if startingRouteEval
                        then js_set row routeIndex
                               \<lparr> rq_percent = percent, rq_route = route,
                                 rq_calculatedHops = replicate (length route) None \<rparr>
                        else row);
                quoteMap' = (if startingRouteEval then obj_set quoteMap percent row' else quoteMap);
                currentQuote = js_index row' (int routeIndex)
            in
            (case Option.bind (nth_opt route 0) pools of
              None \<Rightarrow> Inl TypeError
            | Some initialPool \<Rightarrow>
                (let orderedRoute =
                      (if pool_tokenMintA initialPool \<noteq> inputToken \<and>
                          pool_tokenMintB initialPool \<noteq> inputToken
                       then rev route else route);
                    pool = Option.bind (nth_opt orderedRoute hop) pools
                in
                (case currentQuote of
                  None \<Rightarrow> Inl TypeError
                | Some cq \<Rightarrow>
                    (let lastHop =
                          (if amountSpecifiedIsInput
                           then js_index (rq_calculatedHops cq) (int hop - 1)
                           else js_index (rq_calculatedHops cq) (int hop + 1))
                    in
                    if \<not> startingRouteEval \<and> lastHop = None then Inr (quoteMap', quoteUpdates)
                    else
                      (let tokenAmount =
                            (if startingRouteEval then tradeAmount
                             else if amountSpecifiedIsInput then hop_amountOut (the lastHop)
                             else hop_amountIn (the lastHop));
                          tradeToken =
                            (if amountSpecifiedIsInput
                             then (if startingRouteEval then inputToken
                                   else hop_outputMint (the lastHop))
                             else (if startingRouteEval then outputToken
                                   else hop_inputMint (the lastHop)))
                      in
                      (case pool of
                        None \<Rightarrow> Inl TypeError
                      | Some pl \<Rightarrow>
                          Inr (quoteMap',
                               quoteUpdates @
                               [\<lparr> upd_percent = percent, upd_routeIndex = routeIndex,
                                  upd_hopIndex = hop, upd_quoteIndex = length quoteUpdates,
                                  upd_address = pool_address pl,
                                  upd_request =
                                    \<lparr> req_whirlpool = pool_address pl,
                                      req_tradeTokenMint = tradeToken,
                                      req_tokenAmount = tokenAmount,
                                      req_amountSpecifiedIsInput = amountSpecifiedIsInput \<rparr> \<rparr>]))))))))))"

text \<open>
  The body of the outer loop for one amount index: \<open>percents[amountIndex]\<close> and
  \<open>amounts[amountIndex]\<close> come as a pair (the two arrays of \<open>generatePercentageAmounts\<close> have
  the same length).
\<close>

definition buildPercentRequests ::
  "mint \<Rightarrow> mint \<Rightarrow> (address \<rightharpoonup> TokenPairPool) \<Rightarrow> address list list \<Rightarrow> nat \<Rightarrow> bool \<Rightarrow>
   nat \<times> nat \<Rightarrow> QuoteMap \<times> QuoteUpdate list \<Rightarrow> error + (QuoteMap \<times> QuoteUpdate list)" where
  "buildPercentRequests inputToken outputToken pools pairRoutes hop
     amountSpecifiedIsInput percentAmount state =
     (case percentAmount of (percent, tradeAmount) \<Rightarrow>
      case state of (quoteMap, quoteUpdates) \<Rightarrow>
      let quoteMap' = (case map_of quoteMap percent of
                         None \<Rightarrow> obj_set quoteMap percent (replicate (length pairRoutes) None)
                       | Some row \<Rightarrow> quoteMap)
      in foldE (buildRouteRequest inputToken outputToken pools percent tradeAmount hop
                  amountSpecifiedIsInput)
           (zip [0 ..< length pairRoutes] pairRoutes) (quoteMap', quoteUpdates))"

definition buildQuoteUpdateRequests ::
  "mint \<Rightarrow> mint \<Rightarrow> (address \<rightharpoonup> TokenPairPool) \<Rightarrow> address list list \<Rightarrow> nat list \<Rightarrow> nat list \<Rightarrow>
   nat \<Rightarrow> bool \<Rightarrow> QuoteMap \<Rightarrow> error + (QuoteMap \<times> QuoteUpdate list)" where
  "buildQuoteUpdateRequests inputToken outputToken pools pairRoutes percents amounts hop
     amountSpecifiedIsInput quoteMap =
     foldE (buildPercentRequests inputToken outputToken pools pairRoutes hop
              amountSpecifiedIsInput)
       (zip percents amounts) (quoteMap, [])"

subsection \<open>Recording the quotes of one hop\<close>

text \<open>
  The object \<open>updateQuoteMap\<close> writes into \<open>calculatedHops[hopIndex]\<close> for a quote that
  succeeded.
\<close>

definition hopOfQuote :: "address \<Rightarrow> nat \<Rightarrow> SwapQuoteParam \<Rightarrow> SwapQuote \<Rightarrow> Hop" where
  "hopOfQuote address percent swapParam quote =
     (let whirlpoolData = sqp_whirlpoolData swapParam;
          tokenAmount = sqp_tokenAmount swapParam;
          aToB = sqp_aToB swapParam;
          amountSpecifiedIsInput = sqp_amountSpecifiedIsInput swapParam;
          mintA = wp_tokenMintA whirlpoolData;
          mintB = wp_tokenMintB whirlpoolData;
          vaultA = wp_tokenVaultA whirlpoolData;
          vaultB = wp_tokenVaultB whirlpoolData;
          inputMint = (if aToB then mintA else mintB);
          outputMint = (if aToB then mintB else mintA)
      in \<lparr> hop_percent = percent,
           hop_amountIn = (if amountSpecifiedIsInput then tokenAmount
                           else otherAmountThreshold quote),
           hop_amountOut = (if amountSpecifiedIsInput then otherAmountThreshold quote
                            else tokenAmount),
           hop_whirlpool = address,
           hop_inputMint = inputMint,
           hop_outputMint = outputMint,
           hop_mintA = mintA, hop_mintB = mintB,
           hop_vaultA = vaultA, hop_vaultB = vaultB,
           hop_quote = quote \<rparr>)"

text \<open>
  One iteration of the loop of \<open>updateQuoteMap\<close>. The reads \<open>quoteParams[quoteIndex]\<close> and
  \<open>quoteMap[percent][routeIndex]\<close> stand before the \<open>try\<close>; everything else is inside it, and
  the \<open>catch\<close> continues with the next update whatever was thrown: by the quote, by the
  quote called on \<open>undefined\<close>, or by the write into a route that is \<open>undefined\<close>.
\<close>

definition updateQuote ::
  "RouterEnv \<Rightarrow> SwapQuoteParam list \<Rightarrow> QuoteUpdate \<Rightarrow> QuoteMap \<Rightarrow> QuoteMap traced" where
  "updateQuote env quoteParams update quoteMap =
     (let address = upd_address update; percent = upd_percent update;
          routeIndex = upd_routeIndex update; quoteIndex = upd_quoteIndex update;
          hopIndex = upd_hopIndex update
      in
      (case map_of quoteMap percent of
        None \<Rightarrow> ([], Inl TypeError)
      | Some row \<Rightarrow>
          (case nth_opt quoteParams quoteIndex of
             None \<Rightarrow> ([], Inr quoteMap)
           | Some swapParam \<Rightarrow>
               ([SwapQuoteWithParams swapParam (Percentage_fromFraction 0 1000)],
                (case swapQuoteWithParams env swapParam (Percentage_fromFraction 0 1000) of
                   Inl e \<Rightarrow> Inr quoteMap
                 | Inr quote \<Rightarrow>
                     (case js_index row (int routeIndex) of
                        None \<Rightarrow> Inr quoteMap
                      | Some route \<Rightarrow>
                          Inr (obj_set quoteMap percent
                                 (row[routeIndex := Some (route\<lparr> rq_calculatedHops :=
                                    js_set (rq_calculatedHops route) hopIndex
                                      (hopOfQuote address percent swapParam quote) \<rparr>)]))))))))"

definition updateQuoteMap ::
  "RouterEnv \<Rightarrow> QuoteUpdate list \<Rightarrow> SwapQuoteParam list \<Rightarrow> QuoteMap \<Rightarrow> QuoteMap traced" where
  "updateQuoteMap env quoteUpdates quoteParams quoteMap =
     foldT (updateQuote env quoteParams) quoteUpdates quoteMap"

subsection \<open>Cleaning, baselines and pruning\<close>

text \<open>
  The body of the inner loop of \<open>cleanQuoteMap\<close>: destructuring a hole of the row is a
  \<open>TypeError\<close>, and so is reading \<open>amountOut\<close> or \<open>amountIn\<close> of an empty hop slot. The
  callback of \<open>flatMap\<close> keeps the hops that are present.
\<close>

definition cleanQuote ::
  "nat \<Rightarrow> bool \<Rightarrow> nat \<Rightarrow> PartialQuote option \<Rightarrow> RouteQuote list \<Rightarrow> error + RouteQuote list" where
  "cleanQuote tradeAmount amountSpecifiedIsInput percent uncleaned cleaned =
     (case uncleaned of
        None \<Rightarrow> Inl TypeError
      | Some q \<Rightarrow>
          let route = rq_route q; calculatedHops = rq_calculatedHops q;
              filteredCalculatedHops = filter (\<lambda>val. val \<noteq> None) calculatedHops
          in
          if length filteredCalculatedHops = length route then
            (case (if amountSpecifiedIsInput
                   then js_index calculatedHops (int (length calculatedHops) - 1)
                   else js_index calculatedHops 0) of
               None \<Rightarrow> Inl TypeError
             | Some h \<Rightarrow>
                 let otherAmount = (if amountSpecifiedIsInput then hop_amountOut h else hop_amountIn h)
                 in Inr (cleaned @
                         [\<lparr> rq_percent = percent, rq_route = route, rq_calculatedHops = calculatedHops,
                            rq_amountIn = (if amountSpecifiedIsInput then tradeAmount else otherAmount),
                            rq_amountOut = (if amountSpecifiedIsInput then otherAmount else tradeAmount) \<rparr>]))
          else Inr cleaned)"

text \<open>
  \<open>cleanQuoteMap\<close> visits the keys of the quote map in the order of \<open>Object.keys\<close> and gives
  the cleaned map the same keys.
\<close>

definition cleanQuoteMap :: "nat \<Rightarrow> bool \<Rightarrow> QuoteMap \<Rightarrow> error + CleanedQuoteMap" where
  "cleanQuoteMap tradeAmount amountSpecifiedIsInput quoteMap =
     mapE (\<lambda>(percent, uncleanedQuotes).
             bind (foldE (cleanQuote tradeAmount amountSpecifiedIsInput percent) uncleanedQuotes [])
               (\<lambda>cleaned. Inr (percent, cleaned)))
       quoteMap"

definition getSingleHopSplit :: "CleanedQuoteMap \<Rightarrow> error + SplitResult list" where
  "getSingleHopSplit quoteMap =
     (case map_of quoteMap 100 of
        None \<Rightarrow> Inr []
      | Some fullFlow \<Rightarrow>
          mapE (\<lambda>f. case js_index (rq_calculatedHops f) 0 of
                      None \<Rightarrow> Inl TypeError
                    | Some h \<Rightarrow> Inr \<lparr> split_quotes = [f], split_percent = 100,
                                      split_totalIn = hop_amountIn h,
                                      split_totalOut = hop_amountOut h \<rparr>)
            (filter (\<lambda>f. length (rq_calculatedHops f) = 1) fullFlow))"

definition pruneSortFn :: "bool \<Rightarrow> RouteQuote \<Rightarrow> RouteQuote \<Rightarrow> int" where
  "pruneSortFn amountSpecifiedIsInput a b =
     (if amountSpecifiedIsInput then BN_cmp (rq_amountOut b) (rq_amountOut a)
      else BN_cmp (rq_amountIn a) (rq_amountIn b))"

definition pruneQuoteMap :: "CleanedQuoteMap \<Rightarrow> nat \<Rightarrow> bool \<Rightarrow> CleanedQuoteMap" where
  "pruneQuoteMap quoteMap pruneN amountSpecifiedIsInput =
     map (\<lambda>(percent, quotes).
            (percent, take pruneN (js_sort (pruneSortFn amountSpecifiedIsInput) quotes)))
       quoteMap"

subsection \<open>The router\<close>

text \<open>One iteration of the hop loop of \<open>findBestRoutes\<close>.\<close>

definition quoteHop ::
  "RouterEnv \<Rightarrow> mint \<Rightarrow> mint \<Rightarrow> (address \<rightharpoonup> TokenPairPool) \<Rightarrow> address list list \<Rightarrow>
   nat list \<Rightarrow> nat list \<Rightarrow> bool \<Rightarrow> address \<Rightarrow> nat \<Rightarrow> QuoteMap \<Rightarrow> QuoteMap traced" where
  "quoteHop env inputToken outputToken pools pairRoutes percents amounts
     amountSpecifiedIsInput programId hop quoteMap =
     bindT ([], buildQuoteUpdateRequests inputToken outputToken pools pairRoutes
                  percents amounts hop amountSpecifiedIsInput quoteMap)
       (\<lambda>(quoteMap', quoteUpdates).
     bindT ([BatchSwapQuoteByToken (map upd_request quoteUpdates)],
            batchSwapQuoteByToken env (map upd_request quoteUpdates) programId False)
       (\<lambda>quoteParams. updateQuoteMap env quoteUpdates quoteParams quoteMap'))"

text \<open>
  The hop loop and the cleaning. \<open>Math.max\<close> of no arguments is \<open>-Infinity\<close>, which is not an
  array length.
\<close>

definition quoteRoutes ::
  "RouterEnv \<Rightarrow> mint \<Rightarrow> mint \<Rightarrow> nat \<Rightarrow> bool \<Rightarrow> (address \<rightharpoonup> TokenPairPool) \<Rightarrow> address \<Rightarrow>
   address list list \<Rightarrow> nat list \<Rightarrow> nat list \<Rightarrow> CleanedQuoteMap traced" where
  "quoteRoutes env inputToken outputToken tradeAmount amountSpecifiedIsInput pools
     programId pairRoutes percents amounts =
     (if pairRoutes = [] then ([], Inl RangeError)
      else
        let maxRouteLength = Max (set (map length pairRoutes));
            iteration = (if amountSpecifiedIsInput then [0 ..< maxRouteLength]
                         else rev [0 ..< maxRouteLength])
        in
        bindT (foldT (quoteHop env inputToken outputToken pools pairRoutes percents amounts
                        amountSpecifiedIsInput programId) iteration [])
          (\<lambda>quoteMap. ([], cleanQuoteMap tradeAmount amountSpecifiedIsInput quoteMap)))"

text \<open>The end of \<open>findBestRoutes\<close>, from the cleaned quote map to the sorted result.\<close>

definition rankRoutes ::
  "RouterEnv \<Rightarrow> bool \<Rightarrow> RoutingOptions \<Rightarrow> CleanedQuoteMap \<Rightarrow> error + SplitResult list" where
  "rankRoutes env amountSpecifiedIsInput routingOptions cleanedQuoteMap =
     bind (getSingleHopSplit cleanedQuoteMap) (\<lambda>singleHopSingleSplit.
       let prunedQuoteMap = pruneQuoteMap cleanedQuoteMap (numTopPartialQuotes routingOptions)
                              amountSpecifiedIsInput
       in Inr (js_sort (getRouteSetCompare env amountSpecifiedIsInput)
                 (getRankedRouteSets env prunedQuoteMap amountSpecifiedIsInput
                    (numTopRoutes routingOptions) (maxSplits routingOptions)
                  @ singleHopSingleSplit)))"

text \<open>
  \<open>findBestRoutes\<close>. The result is \<open>None\<close> when the call does not return (the percentage
  loop with an increment of zero).
\<close>

definition findBestRoutes ::
  "RouterEnv \<Rightarrow> mint \<Rightarrow> mint \<Rightarrow> nat \<Rightarrow> bool \<Rightarrow> (string \<rightharpoonup> address list list) \<Rightarrow>
   (address \<rightharpoonup> TokenPairPool) \<Rightarrow> address \<Rightarrow> PartialRoutingOptions \<Rightarrow>
   (SplitResult list) traced option" where
  "findBestRoutes env inputToken outputToken tradeAmount amountSpecifiedIsInput walks pools
     programId userRoutingOptions =
     (case walks (getRouteId env inputToken outputToken) of
        None \<Rightarrow> Some ([], Inr [])
      | Some pairRoutes \<Rightarrow>
          if tradeAmount = 0 then Some ([], Inr [])
          else
            let routingOptions = mergeRoutingOptions DEFAULT_ROUTING_OPTIONS userRoutingOptions in
            (case prefetchRoutes env pairRoutes programId of
               (calls, Inl e) \<Rightarrow> Some (calls, Inl e)
             | (calls, Inr u) \<Rightarrow>
                 (case generatePercentageAmounts tradeAmount (percentIncrement routingOptions) of
                    None \<Rightarrow> None
                  | Some (percents, amounts) \<Rightarrow>
                      Some (bindT (calls, Inr u) (\<lambda>_.
                            bindT (quoteRoutes env inputToken outputToken tradeAmount
                                     amountSpecifiedIsInput pools programId pairRoutes percents amounts)
                              (\<lambda>cleanedQuoteMap.
                                 ([], rankRoutes env amountSpecifiedIsInput routingOptions
                                        cleanedQuoteMap)))))))"


section \<open>The slippage step of the swap quote\<close>

text \<open>
  Modelled from the spec: \<open>swapQuoteWithParams\<close> of the swap-quote module, which is not
  among the sources. Section 4.D gives its last step: the quote carries the estimates of
  the swap simulation and \<open>otherAmountThreshold\<close>, which is
  \<open>floor(estimatedAmountOut * (1 - s))\<close> when the amount is input-specified and
  \<open>ceil(estimatedAmountIn * (1 + s))\<close> when it is output-specified, for the slippage
  \<open>s = numerator / denominator\<close>. The simulation itself (the traversal of the tick arrays)
  is a parameter and returns the estimated input, output and fee.
\<close>

definition otherAmountThresholdOf :: "bool \<Rightarrow> nat \<Rightarrow> nat \<Rightarrow> Percentage \<Rightarrow> nat" where
  "otherAmountThresholdOf amountSpecifiedIsInput estIn estOut s =
     (if amountSpecifiedIsInput
      then nat ((int estOut * (denominator s - numerator s)) div denominator s)
      else nat (- ((- (int estIn * (denominator s + numerator s))) div denominator s)))"

definition swapQuoteFromSimulation ::
  "(SwapQuoteParam \<Rightarrow> error + (nat \<times> nat \<times> nat)) \<Rightarrow> SwapQuoteParam \<Rightarrow> Percentage \<Rightarrow>
   error + SwapQuote" where
  "swapQuoteFromSimulation simulateSwap param s =
     bind (simulateSwap param) (\<lambda>(estIn, estOut, fee).
       Inr \<lparr> estimatedAmountIn = estIn, estimatedAmountOut = estOut, estimatedFeeAmount = fee,
             otherAmountThreshold =
               otherAmountThresholdOf (sqp_amountSpecifiedIsInput param) estIn estOut s \<rparr>)"

section \<open>The optimisation objective\<close>

text \<open>
  The order the router optimises: more output for an input-specified trade, less input
  for an output-specified one. A list is sorted by the objective when each split is at
  least as good as every split after it.
\<close>

definition objective :: "bool \<Rightarrow> SplitResult \<Rightarrow> SplitResult \<Rightarrow> bool" where
  "objective amountSpecifiedIsInput a b =
     (if amountSpecifiedIsInput then split_totalOut a \<ge> split_totalOut b
      else split_totalIn a \<le> split_totalIn b)"

section \<open>Hops of a quote map\<close>

text \<open>
  The hops recorded in a quote map and in a cleaned quote map; what it means for a hop to
  have been recorded from a quote of a batch whose requests carry the trade's flag; and
  what it means for a route quote to be the cleaned form of an uncleaned one.
\<close>

definition hopsOf :: "QuoteMap \<Rightarrow> Hop set" where
  "hopsOf quoteMap =
     {h. \<exists>percent row q. (percent, row) \<in> set quoteMap \<and> Some q \<in> set row \<and>
                          Some h \<in> set (rq_calculatedHops q)}"

definition cleanedHopsOf :: "CleanedQuoteMap \<Rightarrow> Hop set" where
  "cleanedHopsOf quoteMap =
     {h. \<exists>percent quotes q. (percent, quotes) \<in> set quoteMap \<and> q \<in> set quotes \<and>
                             Some h \<in> set (rq_calculatedHops q)}"

definition recordedFrom :: "RouterEnv \<Rightarrow> address \<Rightarrow> bool \<Rightarrow> Hop \<Rightarrow> bool" where
  "recordedFrom env programId amountSpecifiedIsInput h =
     (\<exists>requests quoteParams swapParam.
        batchSwapQuoteByToken env requests programId False = Inr quoteParams \<and>
        (\<forall>r \<in> set requests. req_amountSpecifiedIsInput r = amountSpecifiedIsInput) \<and>
        swapParam \<in> set quoteParams \<and>
        swapQuoteWithParams env swapParam (Percentage_fromFraction 0 1000) = Inr (hop_quote h) \<and>
        hop_amountIn h = (if sqp_amountSpecifiedIsInput swapParam then sqp_tokenAmount swapParam
                          else otherAmountThreshold (hop_quote h)) \<and>
        hop_amountOut h = (if sqp_amountSpecifiedIsInput swapParam
                           then otherAmountThreshold (hop_quote h)
                           else sqp_tokenAmount swapParam))"

definition cleanedFrom :: "nat \<Rightarrow> bool \<Rightarrow> nat \<Rightarrow> PartialQuote \<Rightarrow> RouteQuote \<Rightarrow> bool" where
  "cleanedFrom tradeAmount amountSpecifiedIsInput percent uncleaned q =
     (rq_percent q = percent \<and> rq_route q = rq_route uncleaned \<and>
      rq_calculatedHops q = rq_calculatedHops uncleaned \<and>
      length (filter (\<lambda>val. val \<noteq> None) (rq_calculatedHops uncleaned)) = length (rq_route uncleaned) \<and>
      (if amountSpecifiedIsInput
       then rq_amountIn q = tradeAmount \<and>
            (\<exists>h. js_index (rq_calculatedHops uncleaned)
                       (int (length (rq_calculatedHops uncleaned)) - 1) = Some h \<and>
                 rq_amountOut q = hop_amountOut h)
       else rq_amountOut q = tradeAmount \<and>
            (\<exists>h. js_index (rq_calculatedHops uncleaned) 0 = Some h \<and>
                 rq_amountIn q = hop_amountIn h)))"

section \<open>Example instances\<close>

text \<open>
  Concrete collaborators on which the definitions are run. \<open>sampleMath\<close> takes the
  formulas of section 4.A of the specification for the liquidity and token amounts, with a
  linear table in place of the tick table and a first-order bound in place of the square
  root of the slippage bound; it stands for no particular deployment.
\<close>

definition sampleMath :: PositionMath where
  "sampleMath = \<lparr>
     checkTickInBounds = (\<lambda>t. - 443636 \<le> t \<and> t \<le> 443636),
     tickIndexToSqrtPriceX64 = (\<lambda>t. if - 443636 \<le> t \<and> t \<le> 443636
                                     then Inr (2 ^ 64 + t * 2 ^ 40) else Inl TickOutOfBounds),
     getSlippageBoundForSqrtPrice = (\<lambda>p s.
        if denominator s = 0 then Inl DivideByZero
        else let lo = p * (2 * denominator s - numerator s) div (2 * denominator s);
                 hi = p * (2 * denominator s + numerator s) div (2 * denominator s)
             in Inr ((lo, (lo - 2 ^ 64) div 2 ^ 40), (hi, (hi - 2 ^ 64) div 2 ^ 40))),
     getLiquidityFromTokenA = (\<lambda>amount lo hi roundUp.
        if hi - lo = 0 then Inl DivideByZero
        else Inr ((amount * lo * hi) div (hi - lo) div 2 ^ 64)),
     getLiquidityFromTokenB = (\<lambda>amount lo hi roundUp.
        if hi - lo = 0 then Inl DivideByZero
        else Inr ((amount * 2 ^ 64) div (hi - lo))),
     getTokenAFromLiquidity = (\<lambda>liq lo hi roundUp.
        if hi * lo = 0 then Inl DivideByZero
        else Inr (if roundUp then - ((- (liq * (hi - lo) * 2 ^ 64)) div (hi * lo))
                  else (liq * (hi - lo) * 2 ^ 64) div (hi * lo))),
     getTokenBFromLiquidity = (\<lambda>liq lo hi roundUp.
        Inr (if roundUp then - ((- (liq * (hi - lo))) div 2 ^ 64)
             else (liq * (hi - lo)) div 2 ^ 64)),
     adjustForSlippage = (\<lambda>n s adjustUp.
        if adjustUp then (if denominator s = 0 then Inl DivideByZero
                          else Inr (n * (denominator s + numerator s) div denominator s))
        else (if denominator s + numerator s = 0 then Inl DivideByZero
              else Inr (n * denominator s div (denominator s + numerator s)))),
     getStrictPositionStatus = (\<lambda>p tl tu.
        if \<not> (- 443636 \<le> tl \<and> tl \<le> 443636 \<and> - 443636 \<le> tu \<and> tu \<le> 443636)
        then Inl TickOutOfBounds
        else if p \<le> 2 ^ 64 + tl * 2 ^ 40 then Inr BelowRange
        else if p \<ge> 2 ^ 64 + tu * 2 ^ 40 then Inr AboveRange
        else Inr InRange) \<rparr>"

text \<open>A position over the ticks \<open>-64\<close> to \<open>64\<close> with an input of 1000 of token A.\<close>

definition sampleParam :: "int \<Rightarrow> int \<Rightarrow> IncreaseLiquidityQuoteParam" where
  "sampleParam tick price =
     \<lparr> tickCurrentIndex = tick, sqrtPrice = price, tickLowerIndex = - 64, tickUpperIndex = 64,
       slippage = \<lparr> numerator = 1, denominator = 100 \<rparr>,
       inputTokenAmount = 1000, inputTokenMint = ''mintA'',
       tokenMintA = ''mintA'', tokenMintB = ''mintB'' \<rparr>"

text \<open>
  Three pools over the mints A, B and C; a swap simulation that charges three per mille
  and has no liquidity for more than a million units; a ranker that returns the complete
  routes of the full amount, each as a split of its own.
\<close>

definition samplePools :: "address \<rightharpoonup> TokenPairPool" where
  "samplePools = [
     ''poolAB'' \<mapsto> \<lparr> pool_address = ''poolAB'', pool_tokenMintA = ''mintA'', pool_tokenMintB = ''mintB'' \<rparr>,
     ''poolBC'' \<mapsto> \<lparr> pool_address = ''poolBC'', pool_tokenMintA = ''mintB'', pool_tokenMintB = ''mintC'' \<rparr>,
     ''poolAC'' \<mapsto> \<lparr> pool_address = ''poolAC'', pool_tokenMintA = ''mintA'', pool_tokenMintB = ''mintC'' \<rparr>]"

definition sampleWhirlpool :: "address \<Rightarrow> WhirlpoolData option" where
  "sampleWhirlpool a = map_option (\<lambda>p.
      \<lparr> wp_tokenMintA = pool_tokenMintA p, wp_tokenMintB = pool_tokenMintB p,
        wp_tokenVaultA = ''vaultA-'' @ a, wp_tokenVaultB = ''vaultB-'' @ a,
        wp_tickCurrentIndex = 0, wp_tickSpacing = 64 \<rparr>) (samplePools a)"

definition sampleSimulation :: "SwapQuoteParam \<Rightarrow> error + (nat \<times> nat \<times> nat)" where
  "sampleSimulation param =
     (let amount = sqp_tokenAmount param; fee = (amount * 3 + 999) div 1000 in
      if amount > 1000000 then Inl InsufficientTickArrays
      else if sqp_amountSpecifiedIsInput param then Inr (amount, amount - fee, fee)
      else Inr (amount + fee, amount, fee))"

definition sampleEnv :: "(SwapQuoteParam \<Rightarrow> error + (nat \<times> nat \<times> nat)) \<Rightarrow> RouterEnv" where
  "sampleEnv simulateSwap = \<lparr>
     getRouteId = (\<lambda>a b. a @ ''/'' @ b),
     listPools = (\<lambda>ps useCache. Inr (map sampleWhirlpool ps)),
     listTickArrays = (\<lambda>addrs useCache. Inr ()),
     getTickArrayPublicKeys =
       (\<lambda>tick spacing aToB programId p. [p @ (if aToB then ''-left'' else ''-right'')]),
     batchSwapQuoteByToken = (\<lambda>reqs programId useCache.
        mapE (\<lambda>r. case sampleWhirlpool (req_whirlpool r) of
                     None \<Rightarrow> Inl PoolNotFound
                   | Some wp \<Rightarrow>
                       Inr \<lparr> sqp_whirlpoolData = wp, sqp_tokenAmount = req_tokenAmount r,
                             sqp_aToB = ((req_tradeTokenMint r = wp_tokenMintA wp)
                                         = req_amountSpecifiedIsInput r),
                             sqp_amountSpecifiedIsInput = req_amountSpecifiedIsInput r \<rparr>) reqs),
     swapQuoteWithParams = swapQuoteFromSimulation simulateSwap,
     getRankedRouteSets = (\<lambda>quoteMap amountSpecifiedIsInput n k.
        take n (map (\<lambda>q. \<lparr> split_quotes = [q], split_percent = rq_percent q,
                            split_totalIn = rq_amountIn q, split_totalOut = rq_amountOut q \<rparr>)
                 (case map_of quoteMap 100 of None \<Rightarrow> [] | Some qs \<Rightarrow> qs))),
     getRouteSetCompare = (\<lambda>amountSpecifiedIsInput a b.
        if amountSpecifiedIsInput then BN_cmp (split_totalOut b) (split_totalOut a)
        else BN_cmp (split_totalIn a) (split_totalIn b)) \<rparr>"

definition sampleWalks :: "string \<rightharpoonup> address list list" where
  "sampleWalks = [''mintA/mintC'' \<mapsto> [[''poolAC''], [''poolAB'', ''poolBC'']],
                  ''mintA/mintB'' \<mapsto> [[''poolAB'']]]"

definition sampleOptions :: "nat \<Rightarrow> PartialRoutingOptions" where
  "sampleOptions increment =
     \<lparr> opt_percentIncrement = Some increment, opt_numTopRoutes = None,
       opt_numTopPartialQuotes = None, opt_maxSplits = None \<rparr>"


text \<open>
  What the example collaborators give for a trade of token A over the pool of A and B,
  input-specified: the swap parameters of an amount, the hop recorded for it, and the
  cleaned quote of the single-hop route.
\<close>

definition zeroSlippage :: Percentage where
  "zeroSlippage = \<lparr> numerator = 0, denominator = 1000 \<rparr>"

definition poolABRequest :: "nat \<Rightarrow> QuoteRequest" where
  "poolABRequest amount =
     \<lparr> req_whirlpool = ''poolAB'', req_tradeTokenMint = ''mintA'', req_tokenAmount = amount,
       req_amountSpecifiedIsInput = True \<rparr>"

definition poolABParam :: "nat \<Rightarrow> SwapQuoteParam" where
  "poolABParam amount =
     \<lparr> sqp_whirlpoolData =
         \<lparr> wp_tokenMintA = ''mintA'', wp_tokenMintB = ''mintB'',
           wp_tokenVaultA = ''vaultA-poolAB'', wp_tokenVaultB = ''vaultB-poolAB'',
           wp_tickCurrentIndex = 0, wp_tickSpacing = 64 \<rparr>,
       sqp_tokenAmount = amount, sqp_aToB = True, sqp_amountSpecifiedIsInput = True \<rparr>"

definition poolABHop :: "nat \<Rightarrow> nat \<Rightarrow> nat \<Rightarrow> Hop" where
  "poolABHop percent amountIn amountOut =
     \<lparr> hop_percent = percent, hop_amountIn = amountIn, hop_amountOut = amountOut,
       hop_whirlpool = ''poolAB'', hop_inputMint = ''mintA'', hop_outputMint = ''mintB'',
       hop_mintA = ''mintA'', hop_mintB = ''mintB'',
       hop_vaultA = ''vaultA-poolAB'', hop_vaultB = ''vaultB-poolAB'',
       hop_quote = \<lparr> estimatedAmountIn = amountIn, estimatedAmountOut = amountOut,
                     estimatedFeeAmount = amountIn - amountOut,
                     otherAmountThreshold = amountOut \<rparr> \<rparr>"

definition poolABQuote :: "nat \<Rightarrow> nat \<Rightarrow> nat \<Rightarrow> nat \<Rightarrow> RouteQuote" where
  "poolABQuote percent hopAmountIn amountIn amountOut =
     \<lparr> rq_percent = percent, rq_route = [''poolAB''],
       rq_calculatedHops = [Some (poolABHop percent hopAmountIn amountOut)],
       rq_amountIn = amountIn, rq_amountOut = amountOut \<rparr>"

definition poolABSplit :: SplitResult where
  "poolABSplit =
     \<lparr> split_quotes = [poolABQuote 100 1000 1000 997], split_percent = 100,
       split_totalIn = 1000, split_totalOut = 997 \<rparr>"

section \<open>Properties of the add-liquidity quotes\<close>

lemma bind_Inl [simp]: "bind (Inl e) f = Inl e"
  by (simp add: bind_def)

lemma bind_Inr [simp]: "bind (Inr x) f = f x"
  by (simp add: bind_def)

lemma bind_eq_Inr: "bind m f = Inr y \<longleftrightarrow> (\<exists>x. m = Inr x \<and> f x = Inr y)"
  by (cases m) simp_all

text \<open>
  Claim C3 (price-slippage quote by input token): the position is Above, so that an input
  of token A gives zero liquidity, exactly when \<open>tickCurrent \<ge> tickUpper\<close>. The source
  tests \<open>tickCurrentIndex > tickUpperIndex\<close>: when the current tick equals the upper tick,
  \<open>getLiquidityFromInputToken\<close> takes the in-range branch and computes the liquidity
  between the current price and the price of the upper tick, while
  \<open>getTokenEstimatesFromLiquidity\<close> (tested with \<open><\<close>) treats the same position as Above.
\<close>

theorem getLiquidityFromInputToken_at_upper_tick:
  assumes "inputTokenAmount params \<noteq> 0"
      and "tickLowerIndex params \<le> tickUpperIndex params"
      and "tickCurrentIndex params = tickUpperIndex params"
  shows "getLiquidityFromInputToken pm params =
           bind (tickIndexToSqrtPriceX64 pm (tickLowerIndex params)) (\<lambda>sqrtPriceLowerX64.
           bind (tickIndexToSqrtPriceX64 pm (tickUpperIndex params)) (\<lambda>sqrtPriceUpperX64.
             if tokenMintA params = inputTokenMint params
             then getLiquidityFromTokenA pm (inputTokenAmount params)
                    (sqrtPrice params) sqrtPriceUpperX64 False
             else getLiquidityFromTokenB pm (inputTokenAmount params)
                    sqrtPriceLowerX64 (sqrtPrice params) False))"
  using assms by (simp add: getLiquidityFromInputToken_def ZERO_def Let_def)

theorem getLiquidityFromInputToken_at_upper_tick_witness:
  "getLiquidityFromInputToken sampleMath (sampleParam 64 (2 ^ 64 + 64 * 2 ^ 40 + 5))
     = Inr (- 3689376962293268481001) \<and>
   getLiquidityFromInputToken sampleMath (sampleParam 64 (2 ^ 64 + 64 * 2 ^ 40))
     = Inl DivideByZero"
proof
  let ?p = "sampleParam 64 (2 ^ 64 + 64 * 2 ^ 40 + 5)"
  have "inputTokenAmount ?p \<noteq> 0" "tickLowerIndex ?p \<le> tickUpperIndex ?p"
       "tickCurrentIndex ?p = tickUpperIndex ?p"
    by (simp_all add: sampleParam_def)
  from getLiquidityFromInputToken_at_upper_tick[OF this, of sampleMath]
  show "getLiquidityFromInputToken sampleMath ?p = Inr (- 3689376962293268481001)"
    by (simp add: sampleMath_def sampleParam_def)
next
  let ?p = "sampleParam 64 (2 ^ 64 + 64 * 2 ^ 40)"
  have "inputTokenAmount ?p \<noteq> 0" "tickLowerIndex ?p \<le> tickUpperIndex ?p"
       "tickCurrentIndex ?p = tickUpperIndex ?p"
    by (simp_all add: sampleParam_def)
  from getLiquidityFromInputToken_at_upper_tick[OF this, of sampleMath]
  show "getLiquidityFromInputToken sampleMath ?p = Inl DivideByZero"
    by (simp add: sampleMath_def sampleParam_def)
qed

text \<open>
  Claim C4: a quote returned by \<open>increaseLiquidityQuoteByLiquidityWithParams\<close> for a nonzero
  liquidity has as \<open>tokenMaxA\<close> the maximum of the token-A estimates at the current price
  and at the two slippage bounds of the price, likewise \<open>tokenMaxB\<close>; every returned quote
  has \<open>tokenMaxA \<ge> tokenEstA\<close> and \<open>tokenMaxB \<ge> tokenEstB\<close>.
\<close>

theorem tokenMax_is_max_of_estimates:
  assumes "increaseLiquidityQuoteByLiquidityWithParams pm params = Inr q"
  shows "tokenMaxA q \<ge> tokenEstA q \<and> tokenMaxB q \<ge> tokenEstB q \<and>
    (liquidity params \<noteq> 0 \<longrightarrow>
      (\<exists>estA estB lo loT hi hiT estALower estBLower estAUpper estBUpper.
         getTokenEstimatesFromLiquidity pm params = Inr (estA, estB) \<and>
         getSlippageBoundForSqrtPrice pm (sqrtPrice params) (slippage params)
           = Inr ((lo, loT), (hi, hiT)) \<and>
         getTokenEstimatesFromLiquidity pm (params\<lparr> sqrtPrice := lo, tickCurrentIndex := loT \<rparr>)
           = Inr (estALower, estBLower) \<and>
         getTokenEstimatesFromLiquidity pm (params\<lparr> sqrtPrice := hi, tickCurrentIndex := hiT \<rparr>)
           = Inr (estAUpper, estBUpper) \<and>
         tokenEstA q = estA \<and> tokenEstB q = estB \<and> liquidityAmount q = liquidity params \<and>
         tokenMaxA q = max (max estA estALower) estAUpper \<and>
         tokenMaxB q = max (max estB estBLower) estBUpper))"
  using assms
  by (auto simp: increaseLiquidityQuoteByLiquidityWithParams_def bind_def ZERO_def zeroQuote_def
        BN_max_def split: if_splits sum.splits prod.splits)

theorem tokenMax_is_max_of_estimates_witness:
  "increaseLiquidityQuoteByLiquidityWithParams sampleMath
     \<lparr> tickCurrentIndex = 0, sqrtPrice = 2 ^ 64, tickLowerIndex = - 64, tickUpperIndex = 64,
       slippage = \<lparr> numerator = 1, denominator = 100 \<rparr>, liquidity = 1000000 \<rparr>
   = Inr \<lparr> liquidityAmount = 1000000, tokenEstA = 4, tokenEstB = 4,
           tokenMaxA = 5029, tokenMaxB = 8 \<rparr> \<and>
   (5029 :: int) \<ge> 4 \<and> (8 :: int) \<ge> 4"
proof -
  let ?params = "\<lparr> tickCurrentIndex = 0, sqrtPrice = 2 ^ 64, tickLowerIndex = - 64,
                   tickUpperIndex = 64, slippage = \<lparr> numerator = 1, denominator = 100 \<rparr>,
                   liquidity = 1000000 \<rparr>"
  let ?q = "\<lparr> liquidityAmount = 1000000, tokenEstA = 4, tokenEstB = 4,
              tokenMaxA = 5029, tokenMaxB = 8 \<rparr>"
  have run: "increaseLiquidityQuoteByLiquidityWithParams sampleMath ?params = Inr ?q"
    by (simp add: increaseLiquidityQuoteByLiquidityWithParams_def getTokenEstimatesFromLiquidity_def
          sampleMath_def ZERO_def BN_max_def Let_def)
  from tokenMax_is_max_of_estimates[OF run] run show ?thesis by simp
qed

text \<open>
  Claim C5: for parameters that pass the three checks, a zero input amount or a computed
  liquidity of zero gives the quote with all five outputs zero and no error; so does a
  liquidity of zero passed to \<open>increaseLiquidityQuoteByLiquidityWithParams\<close>.
\<close>

theorem zero_liquidity_gives_zero_quote:
  "(checkTickInBounds pm (tickLowerIndex param) \<and> checkTickInBounds pm (tickUpperIndex param) \<and>
    (inputTokenMint param = tokenMintA param \<or> inputTokenMint param = tokenMintB param) \<and>
    (inputTokenAmount param = 0 \<or> getLiquidityFromInputToken pm param = Inr 0)
    \<longrightarrow> increaseLiquidityQuoteByInputTokenWithParams_PriceSlippage pm param = Inr zeroQuote) \<and>
   (liquidity params = 0
    \<longrightarrow> increaseLiquidityQuoteByLiquidityWithParams pm params = Inr zeroQuote) \<and>
   tokenMaxA zeroQuote = 0 \<and> tokenMaxB zeroQuote = 0 \<and> liquidityAmount zeroQuote = 0 \<and>
   tokenEstA zeroQuote = 0 \<and> tokenEstB zeroQuote = 0"
  by (auto simp: increaseLiquidityQuoteByInputTokenWithParams_PriceSlippage_def
        increaseLiquidityQuoteByLiquidityWithParams_def checkQuoteParam_def
        getLiquidityFromInputToken_def ZERO_def zeroQuote_def)

theorem zero_liquidity_gives_zero_quote_witness:
  "increaseLiquidityQuoteByInputTokenWithParams_PriceSlippage sampleMath
     ((sampleParam 0 (2 ^ 64))\<lparr> inputTokenAmount := 0 \<rparr>) = Inr zeroQuote \<and>
   increaseLiquidityQuoteByInputTokenWithParams_PriceSlippage sampleMath
     ((sampleParam 100 (2 ^ 64 + 100 * 2 ^ 40))) = Inr zeroQuote \<and>
   increaseLiquidityQuoteByLiquidityWithParams sampleMath
     \<lparr> tickCurrentIndex = 0, sqrtPrice = 2 ^ 64, tickLowerIndex = - 64, tickUpperIndex = 64,
       slippage = \<lparr> numerator = 1, denominator = 100 \<rparr>, liquidity = 0 \<rparr> = Inr zeroQuote"
proof -
  let ?p0 = "(sampleParam 0 (2 ^ 64))\<lparr> inputTokenAmount := 0 \<rparr>"
  let ?p1 = "sampleParam 100 (2 ^ 64 + 100 * 2 ^ 40)"
  let ?l = "\<lparr> tickCurrentIndex = 0, sqrtPrice = 2 ^ 64, tickLowerIndex = - 64,
              tickUpperIndex = 64, slippage = \<lparr> numerator = 1, denominator = 100 \<rparr>,
              liquidity = 0 \<rparr>"
  have v0: "checkTickInBounds sampleMath (tickLowerIndex ?p0) \<and>
            checkTickInBounds sampleMath (tickUpperIndex ?p0) \<and>
            (inputTokenMint ?p0 = tokenMintA ?p0 \<or> inputTokenMint ?p0 = tokenMintB ?p0) \<and>
            (inputTokenAmount ?p0 = 0 \<or> getLiquidityFromInputToken sampleMath ?p0 = Inr 0)"
    by (simp add: sampleMath_def sampleParam_def)
  have v1: "checkTickInBounds sampleMath (tickLowerIndex ?p1) \<and>
            checkTickInBounds sampleMath (tickUpperIndex ?p1) \<and>
            (inputTokenMint ?p1 = tokenMintA ?p1 \<or> inputTokenMint ?p1 = tokenMintB ?p1) \<and>
            (inputTokenAmount ?p1 = 0 \<or> getLiquidityFromInputToken sampleMath ?p1 = Inr 0)"
    by (simp add: sampleMath_def sampleParam_def getLiquidityFromInputToken_def ZERO_def)
  have l: "liquidity ?l = 0" by simp
  from zero_liquidity_gives_zero_quote[of sampleMath ?p0 ?l] v0 l
  have a: "increaseLiquidityQuoteByInputTokenWithParams_PriceSlippage sampleMath ?p0 = Inr zeroQuote"
          "increaseLiquidityQuoteByLiquidityWithParams sampleMath ?l = Inr zeroQuote"
    by blast+
  from zero_liquidity_gives_zero_quote[of sampleMath ?p1 ?l] v1
  have b: "increaseLiquidityQuoteByInputTokenWithParams_PriceSlippage sampleMath ?p1 = Inr zeroQuote"
    by blast
  from a b show ?thesis by blast
qed

text \<open>
  Claim C7 (deprecated quote by input token): when the position is Below range and the
  input token is token B, or Above range and the input token is token A, the liquidity
  and both token estimates of the quote are zero. The quote is that of the zero estimate
  with the token maximum \<open>adjustForSlippage\<close> gives for zero.
\<close>

lemma quotePositionBelowRange_other_token:
  "tokenMintA param \<noteq> inputTokenMint param \<Longrightarrow>
   quotePositionBelowRange pm param =
     bind (adjustForSlippage pm 0 (slippage param) True) (\<lambda>tokenMax.
       Inr \<lparr> liquidityAmount = 0, tokenEstA = 0, tokenEstB = 0,
             tokenMaxA = tokenMax, tokenMaxB = 0 \<rparr>)"
  by (simp add: quotePositionBelowRange_def getQuotePositionBelowRange_def zeroEstimate_def
        ZERO_def bind_def split: sum.splits)

lemma quotePositionAboveRange_other_token:
  "tokenMintB param \<noteq> inputTokenMint param \<Longrightarrow>
   quotePositionAboveRange pm param =
     bind (adjustForSlippage pm 0 (slippage param) True) (\<lambda>tokenMax.
       Inr \<lparr> liquidityAmount = 0, tokenEstA = 0, tokenEstB = 0,
             tokenMaxA = 0, tokenMaxB = tokenMax \<rparr>)"
  by (simp add: quotePositionAboveRange_def getQuotePositionAboveRange_def zeroEstimate_def
        ZERO_def bind_def split: sum.splits)

theorem deprecated_quote_other_token_is_zero:
  assumes valid: "checkQuoteParam pm param = Inr ()"
      and status: "getStrictPositionStatus pm (sqrtPrice param) (tickLowerIndex param)
                     (tickUpperIndex param) = Inr status"
      and mints: "tokenMintA param \<noteq> tokenMintB param"
      and other: "(status = BelowRange \<and> inputTokenMint param = tokenMintB param) \<or>
                  (status = AboveRange \<and> inputTokenMint param = tokenMintA param)"
  shows "increaseLiquidityQuoteByInputTokenWithParams pm param =
           bind (adjustForSlippage pm 0 (slippage param) True) (\<lambda>tokenMax.
             Inr \<lparr> liquidityAmount = 0, tokenEstA = 0, tokenEstB = 0,
                   tokenMaxA = (if status = BelowRange then tokenMax else 0),
                   tokenMaxB = (if status = BelowRange then 0 else tokenMax) \<rparr>)"
proof -
  have run: "increaseLiquidityQuoteByInputTokenWithParams pm param =
               (case status of BelowRange \<Rightarrow> quotePositionBelowRange pm param
                | InRange \<Rightarrow> quotePositionInRange pm param
                | AboveRange \<Rightarrow> quotePositionAboveRange pm param)"
    using valid status by (simp add: increaseLiquidityQuoteByInputTokenWithParams_def)
  from other show ?thesis
  proof
    assume "status = BelowRange \<and> inputTokenMint param = tokenMintB param"
    with mints run show ?thesis by (simp add: quotePositionBelowRange_other_token)
  next
    assume "status = AboveRange \<and> inputTokenMint param = tokenMintA param"
    with mints run show ?thesis by (simp add: quotePositionAboveRange_other_token)
  qed
qed

theorem deprecated_quote_other_token_is_zero_witness:
  "increaseLiquidityQuoteByInputTokenWithParams sampleMath (sampleParam 100 (2 ^ 64 + 100 * 2 ^ 40))
     = Inr \<lparr> liquidityAmount = 0, tokenEstA = 0, tokenEstB = 0, tokenMaxA = 0, tokenMaxB = 0 \<rparr>"
proof -
  let ?p = "sampleParam 100 (2 ^ 64 + 100 * 2 ^ 40)"
  have 1: "checkQuoteParam sampleMath ?p = Inr ()"
    by (simp add: checkQuoteParam_def sampleMath_def sampleParam_def)
  have 2: "getStrictPositionStatus sampleMath (sqrtPrice ?p) (tickLowerIndex ?p) (tickUpperIndex ?p)
             = Inr AboveRange"
    by (simp add: sampleMath_def sampleParam_def)
  have 3: "tokenMintA ?p \<noteq> tokenMintB ?p" by (simp add: sampleParam_def)
  have 4: "(AboveRange = BelowRange \<and> inputTokenMint ?p = tokenMintB ?p) \<or>
           (AboveRange = AboveRange \<and> inputTokenMint ?p = tokenMintA ?p)"
    by (simp add: sampleParam_def)
  have 5: "adjustForSlippage sampleMath 0 (slippage ?p) True = Inr 0"
    by (simp add: sampleMath_def sampleParam_def)
  show ?thesis
    using deprecated_quote_other_token_is_zero[OF 1 2 3 4] 5 by simp
qed

section \<open>Properties of the split router\<close>

subsection \<open>Sequencing, sorting\<close>

lemma bindT_Inl [simp]: "bindT (calls, Inl e) f = (calls, Inl e)"
  by (simp add: bindT_def)

lemma bindT_Inr [simp]: "bindT (calls, Inr x) f = (calls @ fst (f x), snd (f x))"
  by (simp add: bindT_def split: prod.splits)

lemma mapE_Inr: "mapE f xs = Inr ys \<Longrightarrow> list_all2 (\<lambda>x y. f x = Inr y) xs ys"
proof (induction xs arbitrary: ys)
  case Nil
  then show ?case by simp
next
  case (Cons x xs)
  then show ?case by (auto simp: bind_eq_Inr)
qed

lemma mapE_Inr_image:
  assumes "mapE f xs = Inr ys" and "x \<in> set xs"
  shows "\<exists>y \<in> set ys. f x = Inr y"
proof -
  from assms(1) have "list_all2 (\<lambda>x y. f x = Inr y) xs ys" by (rule mapE_Inr)
  with assms(2) show ?thesis
    by (auto simp: list_all2_conv_all_nth in_set_conv_nth)
qed

lemma set_js_insort [simp]: "set (js_insort cmp x xs) = insert x (set xs)"
  by (induction xs) auto

lemma set_js_sort [simp]: "set (js_sort cmp xs) = set xs"
  by (induction xs) (simp_all add: js_sort_def)

lemma sorted_js_insort:
  assumes total: "\<And>a b. cmp a b \<le> 0 \<or> cmp b a \<le> 0"
      and trans: "\<And>a b c. cmp a b \<le> 0 \<Longrightarrow> cmp b c \<le> 0 \<Longrightarrow> cmp a c \<le> 0"
      and "sorted_wrt (\<lambda>a b. cmp a b \<le> 0) xs"
  shows "sorted_wrt (\<lambda>a b. cmp a b \<le> 0) (js_insort cmp x xs)"
  using assms(3)
proof (induction xs)
  case Nil
  then show ?case by simp
next
  case (Cons y ys)
  show ?case
  proof (cases "cmp x y \<le> 0")
    case True
    with Cons.prems show ?thesis by (auto intro: trans)
  next
    case False
    with total[of x y] have "cmp y x \<le> 0" by simp
    with False Cons show ?thesis by auto
  qed
qed

lemma sorted_js_sort:
  assumes total: "\<And>a b. cmp a b \<le> 0 \<or> cmp b a \<le> 0"
      and trans: "\<And>a b c. cmp a b \<le> 0 \<Longrightarrow> cmp b c \<le> 0 \<Longrightarrow> cmp a c \<le> 0"
  shows "sorted_wrt (\<lambda>a b. cmp a b \<le> 0) (js_sort cmp xs)"
proof (induction xs)
  case Nil
  then show ?case by (simp add: js_sort_def)
next
  case (Cons x xs)
  have "js_sort cmp (x # xs) = js_insort cmp x (js_sort cmp xs)"
    by (simp add: js_sort_def)
  with Cons show ?case
    using sorted_js_insort[of cmp "js_sort cmp xs" x] total trans by simp
qed

subsection \<open>Percentage amounts\<close>

lemma percentageLoop_eq:
  "0 < p \<Longrightarrow> percentageLoop T p i ps as =
     Some (ps @ map (\<lambda>j. j * p) [i ..< Suc (100 div p)],
           as @ map (\<lambda>j. T * (j * p) div 100) [i ..< Suc (100 div p)])"
proof (induction "Suc (100 div p) - i" arbitrary: i ps as)
  case 0
  then have "\<not> i \<le> 100 div p" by simp
  then have "\<not> i * p \<le> 100"
    using less_eq_div_iff_mult_less_eq[OF \<open>0 < p\<close>, of i 100] by blast
  with 0 show ?case
    by (subst percentageLoop.simps) simp
next
  case (Suc n)
  then have le: "i \<le> 100 div p" by linarith
  with Suc.prems have "i * p \<le> 100"
    by (simp add: less_eq_div_iff_mult_less_eq)
  moreover have "n = Suc (100 div p) - (i + 1)" using Suc.hyps(2) by linarith
  moreover have "[i ..< Suc (100 div p)] = i # [i + 1 ..< Suc (100 div p)]"
    using le by (simp add: upt_conv_Cons)
  ultimately show ?case
    using Suc.hyps(1)[of "i + 1"] Suc.prems
    by (subst percentageLoop.simps) simp
qed

text \<open>
  Claim C6: for an increment \<open>p\<close> (a positive whole number) \<open>generatePercentageAmounts\<close>
  returns two lists of length \<open>100 div p\<close>, which is \<open>100 / p\<close> when \<open>p\<close> divides 100; for
  \<open>i\<close> from 1 to that length the entries at position \<open>i\<close> (index \<open>i - 1\<close>) are the percent
  \<open>i * p\<close> and the amount \<open>T * (i * p) div 100\<close>, in exact arithmetic.
\<close>

theorem generatePercentageAmounts_lists:
  assumes "0 < p"
  shows "\<exists>percents amounts.
           generatePercentageAmounts T p = Some (percents, amounts) \<and>
           length percents = 100 div p \<and> length amounts = 100 div p \<and>
           (\<forall>i. 1 \<le> i \<and> i \<le> 100 div p \<longrightarrow>
                percents ! (i - 1) = i * p \<and> amounts ! (i - 1) = T * (i * p) div 100)"
  using assms
  by (auto simp: generatePercentageAmounts_def percentageLoop_eq nth_map_upt
        simp del: upt_Suc)

theorem generatePercentageAmounts_lists_witness:
  "generatePercentageAmounts 1001 20 = Some ([20, 40, 60, 80, 100], [200, 400, 600, 800, 1001])"
proof -
  have positive: "0 < (20::nat)" by simp
  have run: "generatePercentageAmounts 1001 20
               = Some ([20, 40, 60, 80, 100], [200, 400, 600, 800, 1001])"
    by code_simp
  from generatePercentageAmounts_lists[OF positive, of 1001]
  obtain percents amounts where "generatePercentageAmounts 1001 20 = Some (percents, amounts)"
    by (elim exE conjE)
  with run show ?thesis by (simp only:)
qed

subsection \<open>The early return\<close>

text \<open>
  Claim C9: when the trade amount is zero or the walks have no entry for the route id of
  the two mints, \<open>findBestRoutes\<close> returns the empty list; it raises nothing and calls
  neither the fetcher nor a quote (the recorded calls are none), whatever the
  collaborators would have answered.
\<close>

theorem findBestRoutes_early_return:
  assumes "walks (getRouteId env inputToken outputToken) = None \<or> tradeAmount = 0"
  shows "findBestRoutes env inputToken outputToken tradeAmount amountSpecifiedIsInput walks pools
           programId userRoutingOptions = Some ([], Inr [])"
  using assms by (auto simp: findBestRoutes_def split: option.splits)

theorem findBestRoutes_early_return_witness:
  "findBestRoutes (sampleEnv sampleSimulation) ''mintA'' ''mintC'' 0 True sampleWalks samplePools
     ''prog'' (sampleOptions 20) = Some ([], Inr []) \<and>
   findBestRoutes (sampleEnv sampleSimulation) ''mintB'' ''mintC'' 1000 True sampleWalks samplePools
     ''prog'' (sampleOptions 20) = Some ([], Inr [])"
proof
  show "findBestRoutes (sampleEnv sampleSimulation) ''mintA'' ''mintC'' 0 True sampleWalks samplePools
     ''prog'' (sampleOptions 20) = Some ([], Inr [])"
    using findBestRoutes_early_return[of sampleWalks "sampleEnv sampleSimulation"
            "''mintA''" "''mintC''" 0]
    by simp
  have "sampleWalks (getRouteId (sampleEnv sampleSimulation) ''mintB'' ''mintC'') = None"
    by (simp add: sampleWalks_def sampleEnv_def)
  then show "findBestRoutes (sampleEnv sampleSimulation) ''mintB'' ''mintC'' 1000 True sampleWalks
     samplePools ''prog'' (sampleOptions 20) = Some ([], Inr [])"
    using findBestRoutes_early_return[of sampleWalks "sampleEnv sampleSimulation"
            "''mintB''" "''mintC''" 1000]
    by simp
qed

subsection \<open>Baselines and the order of the result\<close>

lemma getSingleHopSplit_member:
  assumes "getSingleHopSplit cleaned = Inr single"
      and "map_of cleaned 100 = Some fullFlow"
      and "f \<in> set fullFlow" and "length (rq_calculatedHops f) = 1"
  shows "\<exists>h. rq_calculatedHops f = [Some h] \<and>
             \<lparr> split_quotes = [f], split_percent = 100, split_totalIn = hop_amountIn h,
               split_totalOut = hop_amountOut h \<rparr> \<in> set single"
proof -
  let ?g = "\<lambda>f. case js_index (rq_calculatedHops f) 0 of
                      None \<Rightarrow> Inl TypeError
                    | Some h \<Rightarrow> Inr \<lparr> split_quotes = [f], split_percent = 100,
                                      split_totalIn = hop_amountIn h,
                                      split_totalOut = hop_amountOut h \<rparr>"
  from assms(1,2) have m: "mapE ?g (filter (\<lambda>f. length (rq_calculatedHops f) = 1) fullFlow) = Inr single"
    by (simp add: getSingleHopSplit_def)
  have "f \<in> set (filter (\<lambda>f. length (rq_calculatedHops f) = 1) fullFlow)"
    using assms(3,4) by simp
  from mapE_Inr_image[OF m this] obtain y where y: "y \<in> set single" "?g f = Inr y"
    by (elim bexE)
  from assms(4) obtain slot where slot: "rq_calculatedHops f = [slot]"
    by (cases "rq_calculatedHops f") auto
  with y(2) obtain h where "slot = Some h"
    by (cases slot) (auto simp: js_index_def)
  with slot y show ?thesis by (auto simp: js_index_def)
qed

lemma findBestRoutes_unfold:
  assumes "walks (getRouteId env inputToken outputToken) = Some pairRoutes"
      and "tradeAmount \<noteq> 0"
      and "generatePercentageAmounts tradeAmount
             (percentIncrement (mergeRoutingOptions DEFAULT_ROUTING_OPTIONS userRoutingOptions))
           = Some (percents, amounts)"
  shows "findBestRoutes env inputToken outputToken tradeAmount amountSpecifiedIsInput walks
           pools programId userRoutingOptions =
         Some (bindT (prefetchRoutes env pairRoutes programId) (\<lambda>_.
               bindT (quoteRoutes env inputToken outputToken tradeAmount amountSpecifiedIsInput
                        pools programId pairRoutes percents amounts)
                 (\<lambda>cleanedQuoteMap.
                    ([], rankRoutes env amountSpecifiedIsInput
                           (mergeRoutingOptions DEFAULT_ROUTING_OPTIONS userRoutingOptions)
                           cleanedQuoteMap))))"
proof (cases "prefetchRoutes env pairRoutes programId")
  case (Pair calls r)
  then show ?thesis
    using assms by (cases r) (simp_all add: findBestRoutes_def Let_def)
qed

text \<open>
  Claim C8: the list \<open>findBestRoutes\<close> returns contains, for every complete quote of the
  cleaned quote map at 100 percent that has a single hop, the split with that one quote,
  percent 100 and the hop's input and output amounts as totals (the baselines are read
  from the cleaned map, before pruning); and the list is sorted by the objective, for a
  comparator of route sets that is a total preorder and orders by the objective (ties
  broken in any way).
\<close>

theorem single_hop_baselines_included:
  assumes run: "findBestRoutes env inputToken outputToken tradeAmount amountSpecifiedIsInput walks
                  pools programId userRoutingOptions = Some (calls, Inr result)"
      and routes: "walks (getRouteId env inputToken outputToken) = Some pairRoutes"
      and amount: "tradeAmount \<noteq> 0"
      and pa: "generatePercentageAmounts tradeAmount
                 (percentIncrement (mergeRoutingOptions DEFAULT_ROUTING_OPTIONS userRoutingOptions))
               = Some (percents, amounts)"
      and quoted: "quoteRoutes env inputToken outputToken tradeAmount amountSpecifiedIsInput pools
                     programId pairRoutes percents amounts = (calls', Inr cleanedQuoteMap)"
  shows "(\<forall>fullFlow f. map_of cleanedQuoteMap 100 = Some fullFlow \<and> f \<in> set fullFlow \<and>
              length (rq_calculatedHops f) = 1 \<longrightarrow>
            (\<exists>h. rq_calculatedHops f = [Some h] \<and>
                 \<lparr> split_quotes = [f], split_percent = 100, split_totalIn = hop_amountIn h,
                   split_totalOut = hop_amountOut h \<rparr> \<in> set result)) \<and>
         ((\<forall>a b. getRouteSetCompare env amountSpecifiedIsInput a b \<le> 0 \<or>
                 getRouteSetCompare env amountSpecifiedIsInput b a \<le> 0) \<and>
          (\<forall>a b c. getRouteSetCompare env amountSpecifiedIsInput a b \<le> 0 \<and>
                   getRouteSetCompare env amountSpecifiedIsInput b c \<le> 0 \<longrightarrow>
                   getRouteSetCompare env amountSpecifiedIsInput a c \<le> 0) \<and>
          (\<forall>a b. getRouteSetCompare env amountSpecifiedIsInput a b \<le> 0 \<longrightarrow>
                 objective amountSpecifiedIsInput a b)
          \<longrightarrow> sorted_wrt (objective amountSpecifiedIsInput) result)"
proof -
  let ?opts = "mergeRoutingOptions DEFAULT_ROUTING_OPTIONS userRoutingOptions"
  let ?cmp = "getRouteSetCompare env amountSpecifiedIsInput"
  have rank: "rankRoutes env amountSpecifiedIsInput ?opts cleanedQuoteMap = Inr result"
  proof (cases "prefetchRoutes env pairRoutes programId")
    case (Pair calls0 r0)
    show ?thesis
    proof (cases r0)
      case (Inl e)
      with Pair run show ?thesis
        by (simp add: findBestRoutes_unfold[where walks=walks, OF routes amount pa])
    next
      case (Inr u)
      with Pair run quoted show ?thesis
        by (simp add: findBestRoutes_unfold[where walks=walks, OF routes amount pa])
    qed
  qed
  then obtain single where
    single: "getSingleHopSplit cleanedQuoteMap = Inr single" and
    result: "result = js_sort ?cmp
               (getRankedRouteSets env
                  (pruneQuoteMap cleanedQuoteMap (numTopPartialQuotes ?opts) amountSpecifiedIsInput)
                  amountSpecifiedIsInput (numTopRoutes ?opts) (maxSplits ?opts) @ single)"
    by (auto simp: rankRoutes_def bind_eq_Inr Let_def)
  have incl: "set single \<subseteq> set result"
    by (simp add: result)
  have part1: "\<forall>fullFlow f. map_of cleanedQuoteMap 100 = Some fullFlow \<and> f \<in> set fullFlow \<and>
              length (rq_calculatedHops f) = 1 \<longrightarrow>
            (\<exists>h. rq_calculatedHops f = [Some h] \<and>
                 \<lparr> split_quotes = [f], split_percent = 100, split_totalIn = hop_amountIn h,
                   split_totalOut = hop_amountOut h \<rparr> \<in> set result)"
    using getSingleHopSplit_member[OF single] incl by blast
  have part2: "sorted_wrt (objective amountSpecifiedIsInput) result"
    if total: "\<forall>a b. ?cmp a b \<le> 0 \<or> ?cmp b a \<le> 0"
    and trans: "\<forall>a b c. ?cmp a b \<le> 0 \<and> ?cmp b c \<le> 0 \<longrightarrow> ?cmp a c \<le> 0"
    and refines: "\<forall>a b. ?cmp a b \<le> 0 \<longrightarrow> objective amountSpecifiedIsInput a b"
  proof -
    have "sorted_wrt (\<lambda>a b. ?cmp a b \<le> 0) result"
      unfolding result using total trans by (intro sorted_js_sort) blast+
    then show ?thesis
      using refines by (auto elim: sorted_wrt_mono_rel[rotated])
  qed
  from part1 part2 show ?thesis by blast
qed


subsection \<open>Objects and arrays\<close>

lemma map_of_obj_set [simp]: "map_of (obj_set m k v) = (map_of m)(k \<mapsto> v)"
  by (induction m) auto

lemma set_obj_set: "set (obj_set m k v) \<subseteq> insert (k, v) (set m)"
  by (induction m) (auto split: if_splits)

lemma keys_obj_set [simp]: "fst ` set (obj_set m k v) = insert k (fst ` set m)"
  by (simp flip: dom_map_of_conv_image_fst)

lemma sorted_obj_set:
  "sorted_wrt (<) (map fst m) \<Longrightarrow> sorted_wrt (<) (map fst (obj_set m k v))"
proof (induction m)
  case Nil
  then show ?case by simp
next
  case (Cons a m)
  then show ?case by (cases a) (auto simp: rev_image_eqI)
qed

lemma set_js_set: "set (js_set xs i v) \<subseteq> insert (Some v) (insert None (set xs))"
  using set_update_subset_insert[of xs i "Some v"] by (auto simp: js_set_def)

lemma js_index_SomeD:
  "js_index xs i = Some v \<Longrightarrow> Some v \<in> set xs \<and> 0 \<le> i \<and> nat i < length xs \<and> xs ! nat i = Some v"
proof -
  assume a: "js_index xs i = Some v"
  then have i: "0 \<le> i" "nat i < length xs" and v: "xs ! nat i = Some v"
    by (auto simp: js_index_def split: if_splits)
  from nth_mem[OF i(2)] v have "Some v \<in> set xs" by simp
  with i v show ?thesis by simp
qed

lemma nth_opt_SomeD:
  "nth_opt xs i = Some v \<Longrightarrow> v \<in> set xs \<and> i < length xs \<and> xs ! i = v"
  by (auto simp: nth_opt_def split: if_splits)

lemma in_hopsOfI:
  "(percent, row) \<in> set m \<Longrightarrow> Some q \<in> set row \<Longrightarrow> Some h \<in> set (rq_calculatedHops q)
   \<Longrightarrow> h \<in> hopsOf m"
  by (auto simp: hopsOf_def)

lemma hopsOf_obj_set:
  assumes "h \<in> hopsOf (obj_set m k row)"
  shows "h \<in> hopsOf m \<or> (\<exists>q. Some q \<in> set row \<and> Some h \<in> set (rq_calculatedHops q))"
proof -
  from assms obtain percent row' q where
    *: "(percent, row') \<in> set (obj_set m k row)" "Some q \<in> set row'"
       "Some h \<in> set (rq_calculatedHops q)"
    by (auto simp: hopsOf_def)
  from *(1) set_obj_set[of m k row] have "(percent, row') = (k, row) \<or> (percent, row') \<in> set m"
    by blast
  with *(2,3) show ?thesis by (auto simp: hopsOf_def)
qed

subsection \<open>Loops\<close>

lemma foldE_preserves:
  assumes "foldE f xs s = Inr s'" and "P s"
      and "\<And>x s s'. x \<in> set xs \<Longrightarrow> P s \<Longrightarrow> f x s = Inr s' \<Longrightarrow> P s'"
  shows "P s'"
  using assms
proof (induction xs arbitrary: s)
  case Nil
  then show ?case by simp
next
  case (Cons x xs)
  from Cons.prems(1) obtain s1 where s1: "f x s = Inr s1" "foldE f xs s1 = Inr s'"
    by (auto simp: bind_eq_Inr)
  have "P s1" using Cons.prems(3)[of x s s1] Cons.prems(2) s1(1) by simp
  show ?case
  proof (rule Cons.IH[OF s1(2) \<open>P s1\<close>])
    fix y t t'
    assume "y \<in> set xs" "P t" "f y t = Inr t'"
    then show "P t'" using Cons.prems(3)[of y t t'] by simp
  qed
qed

lemma foldT_Cons_Inr:
  assumes "snd (foldT f (x # xs) s) = Inr s'"
  shows "\<exists>s1. snd (f x s) = Inr s1 \<and> snd (foldT f xs s1) = Inr s'"
proof (cases "f x s")
  case (Pair c r)
  with assms show ?thesis by (cases r) simp_all
qed

lemma foldT_preserves:
  assumes "snd (foldT f xs s) = Inr s'" and "P s"
      and "\<And>x s s'. x \<in> set xs \<Longrightarrow> P s \<Longrightarrow> snd (f x s) = Inr s' \<Longrightarrow> P s'"
  shows "P s'"
  using assms
proof (induction xs arbitrary: s)
  case Nil
  then show ?case by simp
next
  case (Cons x xs)
  from foldT_Cons_Inr[OF Cons.prems(1)] obtain s1 where
    s1: "snd (f x s) = Inr s1" "snd (foldT f xs s1) = Inr s'" by blast
  have "P s1" using Cons.prems(3)[of x s s1] Cons.prems(2) s1(1) by simp
  show ?case
  proof (rule Cons.IH[OF s1(2) \<open>P s1\<close>])
    fix y t t'
    assume "y \<in> set xs" "P t" "snd (f y t) = Inr t'"
    then show "P t'" using Cons.prems(3)[of y t t'] by simp
  qed
qed

lemma foldT_calls:
  assumes "\<And>x s. x \<in> set xs \<Longrightarrow> \<forall>c \<in> set (fst (f x s)). R c"
  shows "\<forall>c \<in> set (fst (foldT f xs s)). R c"
  using assms
proof (induction xs arbitrary: s)
  case Nil
  then show ?case by simp
next
  case (Cons x xs)
  show ?case
  proof (cases "f x s")
    case (Pair c r)
    have c: "\<forall>a \<in> set c. R a" using Cons.prems[of x s] Pair by simp
    show ?thesis
    proof (cases r)
      case (Inl e)
      with Pair c show ?thesis by simp
    next
      case (Inr s1)
      have "\<forall>a \<in> set (fst (foldT f xs s1)). R a"
      proof (rule Cons.IH)
        fix y t
        assume "y \<in> set xs"
        then show "\<forall>c \<in> set (fst (f y t)). R c" using Cons.prems[of y t] by simp
      qed
      with Pair Inr c show ?thesis by auto
    qed
  qed
qed


subsection \<open>One request, one recorded quote\<close>

lemma buildRouteRequest_Inr:
  assumes "buildRouteRequest inputToken outputToken pools percent tradeAmount hop
             amountSpecifiedIsInput (routeIndex, route) (quoteMap, quoteUpdates)
           = Inr (quoteMap', quoteUpdates')"
  shows "(quoteMap' = quoteMap \<or>
          (\<exists>row. map_of quoteMap percent = Some row \<and>
                 quoteMap' = obj_set quoteMap percent
                   (js_set row routeIndex
                      \<lparr> rq_percent = percent, rq_route = route,
                        rq_calculatedHops = replicate (length route) None \<rparr>))) \<and>
         (quoteUpdates' = quoteUpdates \<or>
          (\<exists>u. quoteUpdates' = quoteUpdates @ [u] \<and> upd_percent u = percent \<and>
               upd_routeIndex u = routeIndex \<and> upd_hopIndex u = hop \<and> hop < length route \<and>
               req_amountSpecifiedIsInput (upd_request u) = amountSpecifiedIsInput))"
  using assms
  by (auto simp: buildRouteRequest_def Let_def split: if_splits option.splits)

lemma updateQuote_Inr:
  assumes "updateQuote env quoteParams update quoteMap = (calls, Inr quoteMap')"
  shows "quoteMap' = quoteMap \<or>
         (\<exists>row route swapParam quote.
            map_of quoteMap (upd_percent update) = Some row \<and>
            js_index row (int (upd_routeIndex update)) = Some route \<and>
            nth_opt quoteParams (upd_quoteIndex update) = Some swapParam \<and>
            swapQuoteWithParams env swapParam (Percentage_fromFraction 0 1000) = Inr quote \<and>
            quoteMap' = obj_set quoteMap (upd_percent update)
              (row[upd_routeIndex update := Some (route\<lparr> rq_calculatedHops :=
                     js_set (rq_calculatedHops route) (upd_hopIndex update)
                       (hopOfQuote (upd_address update) (upd_percent update) swapParam quote) \<rparr>)]))"
  using assms
  by (auto simp: updateQuote_def Let_def split: if_splits option.splits sum.splits)

lemma updateQuote_calls:
  "\<forall>c \<in> set (fst (updateQuote env quoteParams update quoteMap)).
     \<exists>swapParam. c = SwapQuoteWithParams swapParam (Percentage_fromFraction 0 1000)"
  by (auto simp: updateQuote_def Let_def split: option.splits sum.splits)


subsection \<open>Hops of the quote map\<close>

lemma buildRouteRequest_hops:
  assumes "buildRouteRequest inputToken outputToken pools percent tradeAmount hop
             amountSpecifiedIsInput (routeIndex, route) (quoteMap, quoteUpdates)
           = Inr (quoteMap', quoteUpdates')"
  shows "hopsOf quoteMap' \<subseteq> hopsOf quoteMap"
proof
  fix h assume h: "h \<in> hopsOf quoteMap'"
  from buildRouteRequest_Inr[OF assms]
  consider "quoteMap' = quoteMap"
    | row where "map_of quoteMap percent = Some row"
        "quoteMap' = obj_set quoteMap percent
           (js_set row routeIndex
              \<lparr> rq_percent = percent, rq_route = route,
                rq_calculatedHops = replicate (length route) None \<rparr>)"
    by blast
  then show "h \<in> hopsOf quoteMap"
  proof cases
    case 1
    with h show ?thesis by simp
  next
    case 2
    let ?new = "\<lparr> rq_percent = percent, rq_route = route,
                  rq_calculatedHops = replicate (length route) None \<rparr>"
    from h 2(2) hopsOf_obj_set
    consider "h \<in> hopsOf quoteMap"
      | q where "Some q \<in> set (js_set row routeIndex ?new)" "Some h \<in> set (rq_calculatedHops q)"
      by blast
    then show ?thesis
    proof cases
      case 1
      then show ?thesis .
    next
      case 2
      from 2(1) set_js_set[of row routeIndex ?new] have "q = ?new \<or> Some q \<in> set row"
        by auto
      then show ?thesis
      proof
        assume "q = ?new"
        with 2(2) show ?thesis by simp
      next
        assume "Some q \<in> set row"
        moreover from \<open>map_of quoteMap percent = Some row\<close> have "(percent, row) \<in> set quoteMap"
          by (rule map_of_SomeD)
        ultimately show ?thesis using 2(2) by (auto intro: in_hopsOfI)
      qed
    qed
  qed
qed

lemma buildRouteRequest_flags:
  assumes "buildRouteRequest inputToken outputToken pools percent tradeAmount hop
             amountSpecifiedIsInput (routeIndex, route) (quoteMap, quoteUpdates)
           = Inr (quoteMap', quoteUpdates')"
      and "\<forall>u \<in> set quoteUpdates. req_amountSpecifiedIsInput (upd_request u) = amountSpecifiedIsInput"
  shows "\<forall>u \<in> set quoteUpdates'. req_amountSpecifiedIsInput (upd_request u) = amountSpecifiedIsInput"
  using buildRouteRequest_Inr[OF assms(1)] assms(2) by auto

lemma hopsOf_new_row: "hopsOf (obj_set m k (replicate n None)) \<subseteq> hopsOf m"
  using hopsOf_obj_set[of _ m k "replicate n None"] by auto

lemma buildPercentRequests_partial:
  assumes "buildPercentRequests inputToken outputToken pools pairRoutes hop amountSpecifiedIsInput
             (percent, tradeAmount) (quoteMap, quoteUpdates) = Inr (quoteMap', quoteUpdates')"
      and "\<forall>u \<in> set quoteUpdates. req_amountSpecifiedIsInput (upd_request u) = amountSpecifiedIsInput"
  shows "hopsOf quoteMap' \<subseteq> hopsOf quoteMap \<and>
         (\<forall>u \<in> set quoteUpdates'. req_amountSpecifiedIsInput (upd_request u) = amountSpecifiedIsInput)"
proof -
  let ?P = "\<lambda>s. hopsOf (fst s) \<subseteq> hopsOf quoteMap \<and>
                 (\<forall>u \<in> set (snd s). req_amountSpecifiedIsInput (upd_request u) = amountSpecifiedIsInput)"
  let ?start = "case map_of quoteMap percent of
                  None \<Rightarrow> obj_set quoteMap percent (replicate (length pairRoutes) None)
                | Some row \<Rightarrow> quoteMap"
  from assms(1) have run:
    "foldE (buildRouteRequest inputToken outputToken pools percent tradeAmount hop
              amountSpecifiedIsInput)
       (zip [0 ..< length pairRoutes] pairRoutes) (?start, quoteUpdates)
     = Inr (quoteMap', quoteUpdates')"
    by (simp add: buildPercentRequests_def)
  have start: "?P (?start, quoteUpdates)"
    using assms(2) hopsOf_new_row by (auto split: option.splits)
  have "?P (quoteMap', quoteUpdates')"
  proof (rule foldE_preserves[OF run, where P = ?P, OF start])
    fix x s s'
    assume step: "?P s"
      "buildRouteRequest inputToken outputToken pools percent tradeAmount hop
         amountSpecifiedIsInput x s = Inr s'"
    obtain ri route where x: "x = (ri, route)" by (cases x)
    obtain m ups where s: "s = (m, ups)" by (cases s)
    obtain m' ups' where s': "s' = (m', ups')" by (cases s')
    from step(2) have b: "buildRouteRequest inputToken outputToken pools percent tradeAmount hop
         amountSpecifiedIsInput (ri, route) (m, ups) = Inr (m', ups')"
      by (simp add: x s s')
    from buildRouteRequest_hops[OF b] buildRouteRequest_flags[OF b] step(1)
    show "?P s'" by (auto simp: s s')
  qed
  then show ?thesis by simp
qed

lemma buildQuoteUpdateRequests_partial:
  assumes "buildQuoteUpdateRequests inputToken outputToken pools pairRoutes percents amounts hop
             amountSpecifiedIsInput quoteMap = Inr (quoteMap', quoteUpdates)"
  shows "hopsOf quoteMap' \<subseteq> hopsOf quoteMap \<and>
         (\<forall>u \<in> set quoteUpdates. req_amountSpecifiedIsInput (upd_request u) = amountSpecifiedIsInput)"
proof -
  let ?P = "\<lambda>s. hopsOf (fst s) \<subseteq> hopsOf quoteMap \<and>
                 (\<forall>u \<in> set (snd s). req_amountSpecifiedIsInput (upd_request u) = amountSpecifiedIsInput)"
  from assms have run:
    "foldE (buildPercentRequests inputToken outputToken pools pairRoutes hop amountSpecifiedIsInput)
       (zip percents amounts) (quoteMap, []) = Inr (quoteMap', quoteUpdates)"
    by (simp add: buildQuoteUpdateRequests_def)
  have start: "?P (quoteMap, [])" by simp
  have "?P (quoteMap', quoteUpdates)"
  proof (rule foldE_preserves[OF run, where P = ?P, OF start])
    fix x s s'
    assume step: "?P s"
      "buildPercentRequests inputToken outputToken pools pairRoutes hop amountSpecifiedIsInput x s
         = Inr s'"
    obtain percent amount where x: "x = (percent, amount)" by (cases x)
    obtain m ups where s: "s = (m, ups)" by (cases s)
    obtain m' ups' where s': "s' = (m', ups')" by (cases s')
    from step(2) have b: "buildPercentRequests inputToken outputToken pools pairRoutes hop
         amountSpecifiedIsInput (percent, amount) (m, ups) = Inr (m', ups')"
      by (simp add: x s s')
    from step(1) have "\<forall>u \<in> set ups. req_amountSpecifiedIsInput (upd_request u) = amountSpecifiedIsInput"
      by (simp add: s)
    from buildPercentRequests_partial[OF b this] step(1)
    show "?P s'" by (auto simp: s s')
  qed
  then show ?thesis by simp
qed

lemma updateQuote_hops:
  assumes run: "updateQuote env quoteParams update quoteMap = (calls, Inr quoteMap')"
      and old: "\<forall>h \<in> hopsOf quoteMap. R h"
      and new: "\<And>swapParam quote address percent.
                  swapParam \<in> set quoteParams \<Longrightarrow>
                  swapQuoteWithParams env swapParam (Percentage_fromFraction 0 1000) = Inr quote \<Longrightarrow>
                  R (hopOfQuote address percent swapParam quote)"
  shows "\<forall>h \<in> hopsOf quoteMap'. R h"
proof
  fix h assume h: "h \<in> hopsOf quoteMap'"
  from updateQuote_Inr[OF run]
  consider "quoteMap' = quoteMap"
    | row route swapParam quote where
        "map_of quoteMap (upd_percent update) = Some row"
        "js_index row (int (upd_routeIndex update)) = Some route"
        "nth_opt quoteParams (upd_quoteIndex update) = Some swapParam"
        "swapQuoteWithParams env swapParam (Percentage_fromFraction 0 1000) = Inr quote"
        "quoteMap' = obj_set quoteMap (upd_percent update)
              (row[upd_routeIndex update := Some (route\<lparr> rq_calculatedHops :=
                     js_set (rq_calculatedHops route) (upd_hopIndex update)
                       (hopOfQuote (upd_address update) (upd_percent update) swapParam quote) \<rparr>)])"
    by blast
  then show "R h"
  proof cases
    case 1
    with h old show ?thesis by simp
  next
    case 2
    let ?new = "hopOfQuote (upd_address update) (upd_percent update) swapParam quote"
    let ?route' = "route\<lparr> rq_calculatedHops :=
                     js_set (rq_calculatedHops route) (upd_hopIndex update) ?new \<rparr>"
    have inrow: "(upd_percent update, row) \<in> set quoteMap"
      using 2(1) by (rule map_of_SomeD)
    have route: "Some route \<in> set row"
      using js_index_SomeD[OF 2(2)] by simp
    have param: "swapParam \<in> set quoteParams"
      using nth_opt_SomeD[OF 2(3)] by simp
    from h 2(5) hopsOf_obj_set
    consider "h \<in> hopsOf quoteMap"
      | q where "Some q \<in> set (row[upd_routeIndex update := Some ?route'])"
                "Some h \<in> set (rq_calculatedHops q)"
      by blast
    then show ?thesis
    proof cases
      case 1
      with old show ?thesis by simp
    next
      case 2
      from 2(1) set_update_subset_insert[of row "upd_routeIndex update" "Some ?route'"]
      have "q = ?route' \<or> Some q \<in> set row" by auto
      then show ?thesis
      proof
        assume q: "q = ?route'"
        with 2(2) set_js_set[of "rq_calculatedHops route" "upd_hopIndex update" ?new]
        have "h = ?new \<or> Some h \<in> set (rq_calculatedHops route)" by auto
        then show ?thesis
        proof
          assume "h = ?new"
          with new[OF param \<open>swapQuoteWithParams env swapParam (Percentage_fromFraction 0 1000) = Inr quote\<close>]
          show ?thesis by simp
        next
          assume "Some h \<in> set (rq_calculatedHops route)"
          with in_hopsOfI[OF inrow route] old show ?thesis by blast
        qed
      next
        assume "Some q \<in> set row"
        with in_hopsOfI[OF inrow _ 2(2)] old show ?thesis by blast
      qed
    qed
  qed
qed


lemma quoteHop_Inr:
  assumes "snd (quoteHop env inputToken outputToken pools pairRoutes percents amounts
                  amountSpecifiedIsInput programId hop quoteMap) = Inr quoteMap'"
  shows "\<exists>quoteMap1 quoteUpdates quoteParams.
           buildQuoteUpdateRequests inputToken outputToken pools pairRoutes percents amounts hop
             amountSpecifiedIsInput quoteMap = Inr (quoteMap1, quoteUpdates) \<and>
           batchSwapQuoteByToken env (map upd_request quoteUpdates) programId False = Inr quoteParams \<and>
           snd (updateQuoteMap env quoteUpdates quoteParams quoteMap1) = Inr quoteMap'"
proof (cases "buildQuoteUpdateRequests inputToken outputToken pools pairRoutes percents amounts hop
               amountSpecifiedIsInput quoteMap")
  case (Inl e)
  with assms show ?thesis by (simp add: quoteHop_def)
next
  case (Inr built)
  obtain quoteMap1 quoteUpdates where built: "built = (quoteMap1, quoteUpdates)" by (cases built)
  show ?thesis
  proof (cases "batchSwapQuoteByToken env (map upd_request quoteUpdates) programId False")
    case (Inl e)
    with assms Inr built show ?thesis by (simp add: quoteHop_def)
  next
    case batch: (Inr quoteParams)
    with assms Inr built show ?thesis by (simp add: quoteHop_def)
  qed
qed

lemma quoteHop_hops:
  assumes run: "snd (quoteHop env inputToken outputToken pools pairRoutes percents amounts
                       amountSpecifiedIsInput programId hop quoteMap) = Inr quoteMap'"
      and old: "\<forall>h \<in> hopsOf quoteMap. recordedFrom env programId amountSpecifiedIsInput h"
  shows "\<forall>h \<in> hopsOf quoteMap'. recordedFrom env programId amountSpecifiedIsInput h"
proof -
  let ?R = "recordedFrom env programId amountSpecifiedIsInput"
  from quoteHop_Inr[OF run] obtain quoteMap1 quoteUpdates quoteParams where
    build: "buildQuoteUpdateRequests inputToken outputToken pools pairRoutes percents amounts hop
              amountSpecifiedIsInput quoteMap = Inr (quoteMap1, quoteUpdates)" and
    batch: "batchSwapQuoteByToken env (map upd_request quoteUpdates) programId False = Inr quoteParams" and
    upd: "snd (foldT (updateQuote env quoteParams) quoteUpdates quoteMap1) = Inr quoteMap'"
    by (auto simp: updateQuoteMap_def)
  from buildQuoteUpdateRequests_partial[OF build] old
  have start: "\<forall>h \<in> hopsOf quoteMap1. ?R h"
    and flags: "\<forall>r \<in> set (map upd_request quoteUpdates).
                  req_amountSpecifiedIsInput r = amountSpecifiedIsInput"
    by auto
  have new: "?R (hopOfQuote address percent swapParam quote)"
    if "swapParam \<in> set quoteParams"
       "swapQuoteWithParams env swapParam (Percentage_fromFraction 0 1000) = Inr quote"
    for swapParam quote address percent
    unfolding recordedFrom_def
    using batch flags that by (intro exI[of _ "map upd_request quoteUpdates"] exI[of _ quoteParams]
        exI[of _ swapParam]) (simp add: hopOfQuote_def Let_def)
  show ?thesis
  proof (rule foldT_preserves[OF upd, where P = "\<lambda>m. \<forall>h \<in> hopsOf m. ?R h", OF start])
    fix u m m'
    assume m: "\<forall>h \<in> hopsOf m. ?R h" and step: "snd (updateQuote env quoteParams u m) = Inr m'"
    obtain c where "updateQuote env quoteParams u m = (c, Inr m')"
      using step by (cases "updateQuote env quoteParams u m") simp
    from updateQuote_hops[OF this, where R = ?R, OF m] new
    show "\<forall>h \<in> hopsOf m'. ?R h" by blast
  qed
qed

lemma bindT_calls:
  assumes "\<forall>c \<in> set (fst m). R c" and "\<And>x. \<forall>c \<in> set (fst (f x)). R c"
  shows "\<forall>c \<in> set (fst (bindT m f)). R c"
proof (cases m)
  case (Pair calls r)
  with assms show ?thesis by (cases r) auto
qed

lemma quoteHop_calls:
  "\<forall>c \<in> set (fst (quoteHop env inputToken outputToken pools pairRoutes percents amounts
                     amountSpecifiedIsInput programId hop quoteMap)).
     \<forall>swapParam s. c = SwapQuoteWithParams swapParam s \<longrightarrow> s = Percentage_fromFraction 0 1000"
  unfolding quoteHop_def updateQuoteMap_def
proof (intro bindT_calls, goal_cases)
  case 1
  show ?case by simp
next
  case (2 x)
  show ?case
  proof (cases x)
    case (Pair quoteMap1 quoteUpdates)
    show ?thesis
      unfolding Pair prod.case
    proof (intro bindT_calls, goal_cases)
      case 1
      show ?case by simp
    next
      case (2 quoteParams)
      show ?case
      proof (rule foldT_calls)
        fix u m
        show "\<forall>c \<in> set (fst (updateQuote env quoteParams u m)).
                \<forall>swapParam s. c = SwapQuoteWithParams swapParam s \<longrightarrow> s = Percentage_fromFraction 0 1000"
          using updateQuote_calls[of env quoteParams u m] by auto
      qed
    qed
  qed
qed

subsection \<open>Cleaning\<close>

lemma mapE_Inr_preimage:
  assumes "mapE f xs = Inr ys" and "y \<in> set ys"
  shows "\<exists>x \<in> set xs. f x = Inr y"
proof -
  from assms(1) have all2: "list_all2 (\<lambda>x y. f x = Inr y) xs ys" by (rule mapE_Inr)
  from assms(2) obtain i where i: "i < length ys" "ys ! i = y"
    by (auto simp: in_set_conv_nth)
  from all2 i have "i < length xs" "f (xs ! i) = Inr y"
    by (auto simp: list_all2_conv_all_nth)
  then show ?thesis using nth_mem[of i xs] by blast
qed

lemma cleanQuote_Inr:
  assumes "cleanQuote tradeAmount amountSpecifiedIsInput percent slot acc = Inr out"
  shows "out = acc \<or>
         (\<exists>uncleaned q. slot = Some uncleaned \<and> out = acc @ [q] \<and>
                         cleanedFrom tradeAmount amountSpecifiedIsInput percent uncleaned q)"
  using assms
  by (auto simp: cleanQuote_def cleanedFrom_def Let_def split: option.splits if_splits)

lemma cleanRow_Inr:
  assumes "foldE (cleanQuote tradeAmount amountSpecifiedIsInput percent) row acc = Inr out"
  shows "\<forall>q \<in> set out. q \<in> set acc \<or>
           (\<exists>uncleaned. Some uncleaned \<in> set row \<and>
                         cleanedFrom tradeAmount amountSpecifiedIsInput percent uncleaned q)"
  using assms
proof (induction row arbitrary: acc)
  case Nil
  then show ?case by simp
next
  case (Cons slot row)
  from Cons.prems obtain mid where
    mid: "cleanQuote tradeAmount amountSpecifiedIsInput percent slot acc = Inr mid"
         "foldE (cleanQuote tradeAmount amountSpecifiedIsInput percent) row mid = Inr out"
    by (auto simp: bind_eq_Inr)
  show ?case
  proof
    fix q assume "q \<in> set out"
    with Cons.IH[OF mid(2)]
    consider "q \<in> set mid"
      | uncleaned where "Some uncleaned \<in> set row"
          "cleanedFrom tradeAmount amountSpecifiedIsInput percent uncleaned q"
      by blast
    then show "q \<in> set acc \<or>
           (\<exists>uncleaned. Some uncleaned \<in> set (slot # row) \<and>
                         cleanedFrom tradeAmount amountSpecifiedIsInput percent uncleaned q)"
    proof cases
      case 1
      from cleanQuote_Inr[OF mid(1)]
      consider "mid = acc"
        | uncleaned q' where "slot = Some uncleaned" "mid = acc @ [q']"
            "cleanedFrom tradeAmount amountSpecifiedIsInput percent uncleaned q'"
        by blast
      then show ?thesis
      proof cases
        case 1
        with \<open>q \<in> set mid\<close> show ?thesis by simp
      next
        case 2
        with \<open>q \<in> set mid\<close> have "q \<in> set acc \<or> q = q'" by auto
        with 2 show ?thesis by auto
      qed
    next
      case 2
      then show ?thesis by auto
    qed
  qed
qed

lemma cleanQuoteMap_Inr:
  assumes "cleanQuoteMap tradeAmount amountSpecifiedIsInput quoteMap = Inr cleaned"
      and "(percent, quotes) \<in> set cleaned" and "q \<in> set quotes"
  shows "\<exists>row uncleaned. (percent, row) \<in> set quoteMap \<and> Some uncleaned \<in> set row \<and>
           cleanedFrom tradeAmount amountSpecifiedIsInput percent uncleaned q"
proof -
  let ?f = "\<lambda>(percent, uncleanedQuotes).
             bind (foldE (cleanQuote tradeAmount amountSpecifiedIsInput percent) uncleanedQuotes [])
               (\<lambda>cleaned. Inr (percent, cleaned))"
  from assms(1) have "mapE ?f quoteMap = Inr cleaned" by (simp add: cleanQuoteMap_def)
  from mapE_Inr_preimage[OF this assms(2)] obtain x where
    x: "x \<in> set quoteMap" "?f x = Inr (percent, quotes)" by blast
  obtain p row where pr: "x = (p, row)" by (cases x)
  with x(2) have "p = percent"
    and row: "foldE (cleanQuote tradeAmount amountSpecifiedIsInput percent) row [] = Inr quotes"
    by (auto simp: bind_eq_Inr)
  from cleanRow_Inr[OF row] assms(3) obtain uncleaned where
    "Some uncleaned \<in> set row" "cleanedFrom tradeAmount amountSpecifiedIsInput percent uncleaned q"
    by auto
  with x(1) pr \<open>p = percent\<close> show ?thesis by blast
qed

lemma cleanedHops_subset:
  assumes "cleanQuoteMap tradeAmount amountSpecifiedIsInput quoteMap = Inr cleaned"
  shows "cleanedHopsOf cleaned \<subseteq> hopsOf quoteMap"
proof
  fix h assume "h \<in> cleanedHopsOf cleaned"
  then obtain percent quotes q where
    q: "(percent, quotes) \<in> set cleaned" "q \<in> set quotes" "Some h \<in> set (rq_calculatedHops q)"
    by (auto simp: cleanedHopsOf_def)
  from cleanQuoteMap_Inr[OF assms q(1,2)] obtain row uncleaned where
    "(percent, row) \<in> set quoteMap" "Some uncleaned \<in> set row"
    "cleanedFrom tradeAmount amountSpecifiedIsInput percent uncleaned q"
    by blast
  with q(3) show "h \<in> hopsOf quoteMap"
    by (auto simp: cleanedFrom_def intro: in_hopsOfI)
qed


subsection \<open>The quotes of all hops\<close>

lemma quoteRoutes_Inr:
  assumes "snd (quoteRoutes env inputToken outputToken tradeAmount amountSpecifiedIsInput pools
                  programId pairRoutes percents amounts) = Inr cleaned"
  shows "pairRoutes \<noteq> [] \<and>
         (\<exists>quoteMap.
            snd (foldT (quoteHop env inputToken outputToken pools pairRoutes percents amounts
                          amountSpecifiedIsInput programId)
                   (if amountSpecifiedIsInput then [0 ..< Max (set (map length pairRoutes))]
                    else rev [0 ..< Max (set (map length pairRoutes))]) []) = Inr quoteMap \<and>
            cleanQuoteMap tradeAmount amountSpecifiedIsInput quoteMap = Inr cleaned)"
proof -
  let ?loop = "foldT (quoteHop env inputToken outputToken pools pairRoutes percents amounts
                          amountSpecifiedIsInput programId)
                   (if amountSpecifiedIsInput then [0 ..< Max (set (map length pairRoutes))]
                    else rev [0 ..< Max (set (map length pairRoutes))]) []"
  from assms have ne: "pairRoutes \<noteq> []"
    by (auto simp: quoteRoutes_def)
  obtain calls r where loop: "?loop = (calls, r)" by (cases ?loop)
  show ?thesis
  proof (cases r)
    case (Inl e)
    with assms ne loop show ?thesis by (simp add: quoteRoutes_def Let_def del: set_map)
  next
    case (Inr quoteMap)
    with assms ne loop show ?thesis by (simp add: quoteRoutes_def Let_def del: set_map)
  qed
qed

lemma quoteRoutes_calls:
  "\<forall>c \<in> set (fst (quoteRoutes env inputToken outputToken tradeAmount amountSpecifiedIsInput pools
                       programId pairRoutes percents amounts)).
     \<forall>swapParam s. c = SwapQuoteWithParams swapParam s \<longrightarrow> s = Percentage_fromFraction 0 1000"
proof (cases "pairRoutes = []")
  case True
  then show ?thesis by (simp add: quoteRoutes_def)
next
  case False
  then show ?thesis
    unfolding quoteRoutes_def Let_def if_not_P[OF False]
  proof (intro bindT_calls foldT_calls, goal_cases)
    case (1 x s)
    show ?case by (rule quoteHop_calls)
  next
    case (2 x)
    show ?case by simp
  qed
qed

lemma quoteRoutes_hops:
  assumes "snd (quoteRoutes env inputToken outputToken tradeAmount amountSpecifiedIsInput pools
                  programId pairRoutes percents amounts) = Inr cleaned"
  shows "\<forall>h \<in> cleanedHopsOf cleaned. recordedFrom env programId amountSpecifiedIsInput h"
proof -
  let ?R = "recordedFrom env programId amountSpecifiedIsInput"
  from quoteRoutes_Inr[OF assms] obtain quoteMap where
    loop: "snd (foldT (quoteHop env inputToken outputToken pools pairRoutes percents amounts
                          amountSpecifiedIsInput programId)
                   (if amountSpecifiedIsInput then [0 ..< Max (set (map length pairRoutes))]
                    else rev [0 ..< Max (set (map length pairRoutes))]) []) = Inr quoteMap" and
    clean: "cleanQuoteMap tradeAmount amountSpecifiedIsInput quoteMap = Inr cleaned"
    by blast
  have start: "\<forall>h \<in> hopsOf []. ?R h" by (simp add: hopsOf_def)
  have "\<forall>h \<in> hopsOf quoteMap. ?R h"
  proof (rule foldT_preserves[OF loop, where P = "\<lambda>m. \<forall>h \<in> hopsOf m. ?R h", OF start])
    fix hop m m'
    assume "\<forall>h \<in> hopsOf m. ?R h"
      and "snd (quoteHop env inputToken outputToken pools pairRoutes percents amounts
                  amountSpecifiedIsInput programId hop m) = Inr m'"
    then show "\<forall>h \<in> hopsOf m'. ?R h" by (rule quoteHop_hops[rotated])
  qed
  with cleanedHops_subset[OF clean] show ?thesis by blast
qed

lemma prefetchRoutes_calls:
  "\<forall>c \<in> set (fst (prefetchRoutes env pairRoutes programId)).
     \<forall>swapParam s. c \<noteq> SwapQuoteWithParams swapParam s"
  unfolding prefetchRoutes_def Let_def
  by (intro bindT_calls) simp_all

lemma findBestRoutes_calls:
  assumes "findBestRoutes env inputToken outputToken tradeAmount amountSpecifiedIsInput walks
             pools programId userRoutingOptions = Some (calls, result)"
  shows "\<forall>c \<in> set calls.
           \<forall>swapParam s. c = SwapQuoteWithParams swapParam s \<longrightarrow> s = Percentage_fromFraction 0 1000"
proof (cases "walks (getRouteId env inputToken outputToken)")
  case None
  with assms show ?thesis by (simp add: findBestRoutes_def)
next
  case (Some pairRoutes)
  show ?thesis
  proof (cases "tradeAmount = 0")
    case True
    with assms Some show ?thesis by (simp add: findBestRoutes_def)
  next
    case False
    let ?opts = "mergeRoutingOptions DEFAULT_ROUTING_OPTIONS userRoutingOptions"
    show ?thesis
    proof (cases "generatePercentageAmounts tradeAmount (percentIncrement ?opts)")
      case None
      obtain c0 r0 where pf: "prefetchRoutes env pairRoutes programId = (c0, r0)"
        by (cases "prefetchRoutes env pairRoutes programId")
      from prefetchRoutes_calls[of env pairRoutes programId] pf
      have c0: "\<forall>c \<in> set c0. \<forall>swapParam s. c \<noteq> SwapQuoteWithParams swapParam s" by simp
      from assms Some False None pf have "calls = c0"
        by (cases r0) (simp_all add: findBestRoutes_def Let_def)
      with c0 show ?thesis by blast
    next
      case pa: (Some pa)
      obtain percents amounts where "pa = (percents, amounts)" by (cases pa)
      with pa have gen: "generatePercentageAmounts tradeAmount (percentIncrement ?opts)
                         = Some (percents, amounts)" by simp
      let ?run = "bindT (prefetchRoutes env pairRoutes programId) (\<lambda>_.
               bindT (quoteRoutes env inputToken outputToken tradeAmount amountSpecifiedIsInput
                        pools programId pairRoutes percents amounts)
                 (\<lambda>cleanedQuoteMap.
                    ([], rankRoutes env amountSpecifiedIsInput ?opts cleanedQuoteMap)))"
      from assms findBestRoutes_unfold[where walks = walks, OF Some False gen]
      have calls: "calls = fst ?run" by simp
      have "\<forall>c \<in> set (fst ?run).
              \<forall>swapParam s. c = SwapQuoteWithParams swapParam s \<longrightarrow> s = Percentage_fromFraction 0 1000"
      proof (intro bindT_calls, goal_cases)
        case 1
        show ?case using prefetchRoutes_calls[of env pairRoutes programId] by blast
      next
        case (2 x)
        show ?case by (rule quoteRoutes_calls)
      next
        case (3 x y)
        show ?case by simp
      qed
      with calls show ?thesis by simp
    qed
  qed
qed

lemma zero_slippage_threshold:
  assumes "swapQuoteFromSimulation simulateSwap swapParam (Percentage_fromFraction 0 1000) = Inr quote"
  shows "otherAmountThreshold quote =
           (if sqp_amountSpecifiedIsInput swapParam then estimatedAmountOut quote
            else estimatedAmountIn quote)"
  using assms
  by (auto simp: swapQuoteFromSimulation_def otherAmountThresholdOf_def Percentage_fromFraction_def
        bind_eq_Inr)

text \<open>
  Claim C10: every swap quote the router computes is called with the slippage
  \<open>0/1000\<close> (all recorded quote calls of \<open>findBestRoutes\<close> carry it); every hop of the
  cleaned quote map was recorded from a quote that succeeded at that slippage, with the
  specified side equal to the quoted amount and the other side equal to the quote's
  \<open>otherAmountThreshold\<close>, not its estimate (the side is chosen by the flag of the swap
  parameters, which is the trade's flag when the batch keeps the flag of its requests);
  and for the slippage step of the specification the threshold at \<open>0/1000\<close> is the
  unslipped estimate.
\<close>

theorem hop_quotes_use_zero_slippage:
  "(\<forall>calls result c swapParam s.
      findBestRoutes env inputToken outputToken tradeAmount amountSpecifiedIsInput walks
        pools programId userRoutingOptions = Some (calls, result) \<and>
      SwapQuoteWithParams swapParam s \<in> set calls \<longrightarrow> s = \<lparr> numerator = 0, denominator = 1000 \<rparr>) \<and>
   (\<forall>calls cleaned.
      quoteRoutes env inputToken outputToken tradeAmount amountSpecifiedIsInput pools
        programId pairRoutes percents amounts = (calls, Inr cleaned) \<longrightarrow>
      (\<forall>h \<in> cleanedHopsOf cleaned. recordedFrom env programId amountSpecifiedIsInput h) \<and>
      ((\<forall>requests quoteParams.
           batchSwapQuoteByToken env requests programId False = Inr quoteParams \<longrightarrow>
           (\<forall>p \<in> set quoteParams. \<exists>r \<in> set requests.
               sqp_amountSpecifiedIsInput p = req_amountSpecifiedIsInput r)) \<longrightarrow>
       (\<forall>h \<in> cleanedHopsOf cleaned.
           (if amountSpecifiedIsInput then hop_amountOut h else hop_amountIn h)
             = otherAmountThreshold (hop_quote h)))) \<and>
   (\<forall>simulateSwap swapParam quote.
      swapQuoteFromSimulation simulateSwap swapParam \<lparr> numerator = 0, denominator = 1000 \<rparr>
        = Inr quote \<longrightarrow>
      otherAmountThreshold quote =
        (if sqp_amountSpecifiedIsInput swapParam then estimatedAmountOut quote
         else estimatedAmountIn quote))"
proof (intro conjI allI impI)
  fix calls result c swapParam s
  assume "findBestRoutes env inputToken outputToken tradeAmount amountSpecifiedIsInput walks
        pools programId userRoutingOptions = Some (calls, result) \<and>
      SwapQuoteWithParams swapParam s \<in> set calls"
  with findBestRoutes_calls[of env inputToken outputToken tradeAmount amountSpecifiedIsInput walks
        pools programId userRoutingOptions calls result]
  show "s = \<lparr> numerator = 0, denominator = 1000 \<rparr>"
    by (auto simp: Percentage_fromFraction_def)
next
  fix calls cleaned
  assume q: "quoteRoutes env inputToken outputToken tradeAmount amountSpecifiedIsInput pools
        programId pairRoutes percents amounts = (calls, Inr cleaned)"
  then have "snd (quoteRoutes env inputToken outputToken tradeAmount amountSpecifiedIsInput pools
        programId pairRoutes percents amounts) = Inr cleaned" by simp
  from quoteRoutes_hops[OF this]
  show rec: "\<forall>h \<in> cleanedHopsOf cleaned. recordedFrom env programId amountSpecifiedIsInput h" .
  assume keep: "\<forall>requests quoteParams.
           batchSwapQuoteByToken env requests programId False = Inr quoteParams \<longrightarrow>
           (\<forall>p \<in> set quoteParams. \<exists>r \<in> set requests.
               sqp_amountSpecifiedIsInput p = req_amountSpecifiedIsInput r)"
  show "\<forall>h \<in> cleanedHopsOf cleaned.
           (if amountSpecifiedIsInput then hop_amountOut h else hop_amountIn h)
             = otherAmountThreshold (hop_quote h)"
  proof
    fix h assume "h \<in> cleanedHopsOf cleaned"
    with rec have "recordedFrom env programId amountSpecifiedIsInput h" by blast
    then obtain requests quoteParams swapParam where
      r: "batchSwapQuoteByToken env requests programId False = Inr quoteParams"
         "\<forall>r \<in> set requests. req_amountSpecifiedIsInput r = amountSpecifiedIsInput"
         "swapParam \<in> set quoteParams"
         "hop_amountIn h = (if sqp_amountSpecifiedIsInput swapParam then sqp_tokenAmount swapParam
                          else otherAmountThreshold (hop_quote h))"
         "hop_amountOut h = (if sqp_amountSpecifiedIsInput swapParam
                           then otherAmountThreshold (hop_quote h)
                           else sqp_tokenAmount swapParam)"
      unfolding recordedFrom_def by blast
    from keep r(1,3) obtain rq where "rq \<in> set requests"
      "sqp_amountSpecifiedIsInput swapParam = req_amountSpecifiedIsInput rq" by blast
    with r(2) have "sqp_amountSpecifiedIsInput swapParam = amountSpecifiedIsInput" by simp
    with r(4,5) show "(if amountSpecifiedIsInput then hop_amountOut h else hop_amountIn h)
             = otherAmountThreshold (hop_quote h)" by simp
  qed
next
  fix simulateSwap swapParam quote
  assume "swapQuoteFromSimulation simulateSwap swapParam \<lparr> numerator = 0, denominator = 1000 \<rparr>
        = Inr quote"
  then show "otherAmountThreshold quote =
        (if sqp_amountSpecifiedIsInput swapParam then estimatedAmountOut quote
         else estimatedAmountIn quote)"
    using zero_slippage_threshold[of simulateSwap swapParam quote]
    by (simp add: Percentage_fromFraction_def)
qed


end
